theory Spec2Isabelle
  imports Complex_Main "HOL-Library.Multiset" "HOL-Library.AList"
begin

section \<open>JavaScript numbers\<close>

text \<open>
  A JavaScript number is modelled as a real number or one of the three special values
  of IEEE arithmetic. The rounding of binary64 arithmetic, overflow to an infinity and
  the sign of zero are not modelled: a finite number is the real it denotes, and a
  non-zero number divided by zero is the infinity that carries the sign of the dividend.
\<close>

datatype jsnum = Num real | PosInf | NegInf | NaN

fun isNaN :: "jsnum \<Rightarrow> bool" where
  "isNaN NaN = True"
| "isNaN _ = False"

fun isFinite :: "jsnum \<Rightarrow> bool" where
  "isFinite (Num _) = True"
| "isFinite _ = False"

text \<open>Truthiness of a number, as \<^verbatim>\<open>!x\<close> and \<^verbatim>\<open>x || d\<close> test it: 0 and NaN are falsy.\<close>

fun truthy :: "jsnum \<Rightarrow> bool" where
  "truthy (Num a) = (a \<noteq> 0)"
| "truthy NaN = False"
| "truthy _ = True"

fun js_neg :: "jsnum \<Rightarrow> jsnum" where
  "js_neg (Num a) = Num (- a)"
| "js_neg PosInf = NegInf"
| "js_neg NegInf = PosInf"
| "js_neg NaN = NaN"

fun js_add :: "jsnum \<Rightarrow> jsnum \<Rightarrow> jsnum" where
  "js_add (Num a) (Num b) = Num (a + b)"
| "js_add NaN _ = NaN"
| "js_add _ NaN = NaN"
| "js_add PosInf NegInf = NaN"
| "js_add NegInf PosInf = NaN"
| "js_add PosInf _ = PosInf"
| "js_add _ PosInf = PosInf"
| "js_add NegInf _ = NegInf"
| "js_add _ NegInf = NegInf"

definition js_sub :: "jsnum \<Rightarrow> jsnum \<Rightarrow> jsnum" where
  "js_sub a b = js_add a (js_neg b)"

text \<open>The infinity with the sign of \<open>s\<close>; NaN when \<open>s\<close> is zero (0 * Infinity, 0 / 0).\<close>

definition inf_of_sign :: "real \<Rightarrow> jsnum" where
  "inf_of_sign s = (if s = 0 then NaN else if 0 < s then PosInf else NegInf)"

fun js_mul :: "jsnum \<Rightarrow> jsnum \<Rightarrow> jsnum" where
  "js_mul (Num a) (Num b) = Num (a * b)"
| "js_mul NaN _ = NaN"
| "js_mul _ NaN = NaN"
| "js_mul PosInf (Num b) = inf_of_sign b"
| "js_mul NegInf (Num b) = inf_of_sign (- b)"
| "js_mul (Num a) PosInf = inf_of_sign a"
| "js_mul (Num a) NegInf = inf_of_sign (- a)"
| "js_mul PosInf PosInf = PosInf"
| "js_mul PosInf NegInf = NegInf"
| "js_mul NegInf PosInf = NegInf"
| "js_mul NegInf NegInf = PosInf"

fun js_div :: "jsnum \<Rightarrow> jsnum \<Rightarrow> jsnum" where
  "js_div (Num a) (Num b) = (if b = 0 then inf_of_sign a else Num (a / b))"
| "js_div NaN _ = NaN"
| "js_div _ NaN = NaN"
| "js_div (Num a) _ = Num 0"
| "js_div PosInf (Num b) = (if b < 0 then NegInf else PosInf)"
| "js_div NegInf (Num b) = (if b < 0 then PosInf else NegInf)"
| "js_div _ _ = NaN"

text \<open>Comparisons: every comparison with NaN is false.\<close>

fun js_lt :: "jsnum \<Rightarrow> jsnum \<Rightarrow> bool" where
  "js_lt (Num a) (Num b) = (a < b)"
| "js_lt NaN _ = False"
| "js_lt _ NaN = False"
| "js_lt _ NegInf = False"
| "js_lt NegInf _ = True"
| "js_lt PosInf _ = False"
| "js_lt _ PosInf = True"

definition js_gt :: "jsnum \<Rightarrow> jsnum \<Rightarrow> bool" where
  "js_gt a b = js_lt b a"

definition js_le :: "jsnum \<Rightarrow> jsnum \<Rightarrow> bool" where
  "js_le a b = (\<not> isNaN a \<and> \<not> isNaN b \<and> \<not> js_lt b a)"

definition js_ge :: "jsnum \<Rightarrow> jsnum \<Rightarrow> bool" where
  "js_ge a b = js_le b a"

text \<open>\<^verbatim>\<open>Math.min\<close>, \<^verbatim>\<open>Math.max\<close> and \<^verbatim>\<open>Math.abs\<close>; the spread forms
  \<^verbatim>\<open>Math.min(...xs)\<close> start from Infinity and \<^verbatim>\<open>Math.max(...xs)\<close> from -Infinity.\<close>

definition Math_min :: "jsnum \<Rightarrow> jsnum \<Rightarrow> jsnum" where
  "Math_min a b = (if isNaN a \<or> isNaN b then NaN else if js_lt b a then b else a)"

definition Math_max :: "jsnum \<Rightarrow> jsnum \<Rightarrow> jsnum" where
  "Math_max a b = (if isNaN a \<or> isNaN b then NaN else if js_lt a b then b else a)"

definition Math_min_list :: "jsnum list \<Rightarrow> jsnum" where
  "Math_min_list xs = fold (\<lambda>x m. Math_min m x) xs PosInf"

definition Math_max_list :: "jsnum list \<Rightarrow> jsnum" where
  "Math_max_list xs = fold (\<lambda>x m. Math_max m x) xs NegInf"

fun Math_abs :: "jsnum \<Rightarrow> jsnum" where
  "Math_abs (Num a) = Num \<bar>a\<bar>"
| "Math_abs NaN = NaN"
| "Math_abs _ = PosInf"

text \<open>\<^verbatim>\<open>xs.reduce((a, b) => a + b, 0)\<close>\<close>

definition js_sum :: "jsnum list \<Rightarrow> jsnum" where
  "js_sum xs = fold (\<lambda>b a. js_add a b) xs (Num 0)"

section \<open>Decimal strings\<close>

text \<open>
  \<^verbatim>\<open>toFixed(2)\<close> and \<^verbatim>\<open>toLocaleString\<close> with two fraction digits produce the text of a
  decimal number with exactly two digits after the point. Such a text is represented
  by what it shows: whether it starts with a minus sign, and the digits as a number of
  hundredths. Both functions round the magnitude to the nearest hundredth, a tie going
  up, and keep the sign of a negative number that rounds to zero (\<^verbatim>\<open>"-0.00"\<close>).
  The exponent notation that \<^verbatim>\<open>toFixed\<close> switches to from 1e21 on is not modelled.
\<close>

datatype numstr = Dec bool nat | InfStr bool | NaNStr

definition hundredths :: "real \<Rightarrow> nat" where
  "hundredths r = nat \<lfloor>\<bar>r\<bar> * 100 + 1 / 2\<rfloor>"

fun toFixed2 :: "jsnum \<Rightarrow> numstr" where
  "toFixed2 (Num r) = Dec (r < 0) (hundredths r)"
| "toFixed2 PosInf = InfStr False"
| "toFixed2 NegInf = InfStr True"
| "toFixed2 NaN = NaNStr"

text \<open>\<^verbatim>\<open>Number(s)\<close> on such a text.\<close>

fun Number_of :: "numstr \<Rightarrow> jsnum" where
  "Number_of (Dec neg n) = Num ((if neg then - 1 else 1) * (real n / 100))"
| "Number_of (InfStr neg) = (if neg then NegInf else PosInf)"
| "Number_of NaNStr = NaN"

text \<open>The characters of the text \<^verbatim>\<open>toFixed(2)\<close> returns.\<close>

definition digit_char :: "nat \<Rightarrow> char" where
  "digit_char d = ''0123456789'' ! d"

fun digits :: "nat \<Rightarrow> string" where
  "digits n = (if n < 10 then [digit_char n] else digits (n div 10) @ [digit_char (n mod 10)])"


section \<open>Scalar utilities\<close>

text \<open>
  \<^verbatim>\<open>Array.prototype.sort\<close> with a comparator: the sort is stable, and an element \<open>a\<close>
  stays before \<open>b\<close> unless \<^verbatim>\<open>cmp(a, b) > 0\<close> (a comparator result of NaN counts as 0).
  For a comparator that is not a consistent order (NaN among the keys) JavaScript leaves
  the resulting order to the implementation; the model is then this insertion sort.
\<close>

fun insertBy :: "('a \<Rightarrow> 'a \<Rightarrow> jsnum) \<Rightarrow> 'a \<Rightarrow> 'a list \<Rightarrow> 'a list" where
  "insertBy cmp x [] = [x]"
| "insertBy cmp x (y # ys) =
     (if js_gt (cmp x y) (Num 0) then y # insertBy cmp x ys else x # y # ys)"

definition js_sort :: "('a \<Rightarrow> 'a \<Rightarrow> jsnum) \<Rightarrow> 'a list \<Rightarrow> 'a list" where
  "js_sort cmp xs = foldr (insertBy cmp) xs []"

text \<open>
  \<^verbatim>\<open>median\<close>: the indices \<open>mid\<close> and \<open>mid - 1\<close> are inside the sorted copy, because the
  array is not empty there and \<open>mid - 1\<close> is read only when the length is even.
\<close>

definition median :: "jsnum list \<Rightarrow> jsnum" where
  "median arr =
     (if length arr = 0 then Num 0
      else
        let s = js_sort (\<lambda>a b. js_sub a b) arr;
            mid = length s div 2;
            m = (if length s mod 2 \<noteq> 0 then s ! mid
                 else js_div (js_add (s ! (mid - 1)) (s ! mid)) (Num 2))
        in Number_of (toFixed2 m))"

text \<open>
  \<^verbatim>\<open>average\<close>, as revised in the commented copy of the program: the loop adds up the
  entries that are not NaN and counts them. (The entries are numbers, so \<^verbatim>\<open>Number(x)\<close>
  is \<open>x\<close>.)
\<close>

definition average_step :: "jsnum \<Rightarrow> jsnum \<times> nat \<Rightarrow> jsnum \<times> nat" where
  "average_step x acc =
     (case acc of (s, n) \<Rightarrow>
        if \<not> isNaN x then (js_add s x, n + 1) else (s, n))"

definition average :: "jsnum list \<Rightarrow> jsnum" where
  "average arr =
     (if length arr = 0 then Num 0
      else
        case fold average_step arr (Num 0, 0) of
          (s, n) \<Rightarrow> if n \<noteq> 0 then js_div s (Num (real n)) else Num 0)"

text \<open>\<^verbatim>\<open>formatNumber(n, 2)\<close>; every call in the program has two decimals.\<close>

definition formatNumber :: "jsnum \<Rightarrow> numstr" where
  "formatNumber n = (if isNaN n then Dec False 0 else toFixed2 n)"

section \<open>Record cleaner\<close>

text \<open>
  A raw row is what the CSV reader delivers: for each column a string, or
  \<^verbatim>\<open>undefined\<close> (\<open>None\<close>) when the file has no such column.
\<close>

record RawRow =
  raw_FundingYear :: "string option"
  raw_ApprovedBudgetForContract :: "string option"
  raw_ContractCost :: "string option"
  raw_StartDate :: "string option"
  raw_ActualCompletionDate :: "string option"
  raw_Region :: "string option"
  raw_MainIsland :: "string option"
  raw_Contractor :: "string option"
  raw_TypeOfWork :: "string option"

text \<open>
  The functions of the JavaScript platform and of the date library that the cleaner
  calls are parameters of the model: \<^verbatim>\<open>parseInt\<close> on a string (an integer, or \<open>None\<close> for
  NaN), \<^verbatim>\<open>parseFloat\<close> on a string, \<^verbatim>\<open>dayjs(v)\<close> followed by \<^verbatim>\<open>isValid()\<close>: the instant
  of a valid date in milliseconds, or \<open>None\<close> for an invalid one, and
  \<^verbatim>\<open>String.prototype.trim\<close>, which strips the white space and the line terminators of
  Unicode from both ends of a string.
\<close>

record platform =
  lib_parseInt :: "string \<Rightarrow> int option"
  lib_parseFloat :: "string \<Rightarrow> jsnum"
  lib_dayjs :: "string option \<Rightarrow> int option"
  lib_trim :: "string \<Rightarrow> string"

datatype js_error = TypeError

text \<open>\<^verbatim>\<open>parseInt(v)\<close>: \<^verbatim>\<open>parseInt(undefined)\<close> is NaN.\<close>

definition js_parseInt :: "platform \<Rightarrow> string option \<Rightarrow> int option" where
  "js_parseInt lib v = (case v of None \<Rightarrow> None | Some s \<Rightarrow> lib_parseInt lib s)"

text \<open>\<^verbatim>\<open>parseFloatSafe\<close>: \<^verbatim>\<open>(v || "")\<close> is the empty string for \<^verbatim>\<open>undefined\<close>; the commas go.\<close>

definition parseFloatSafe :: "platform \<Rightarrow> string option \<Rightarrow> jsnum" where
  "parseFloatSafe lib v =
     (let n = lib_parseFloat lib (filter (\<lambda>c. c \<noteq> CHR '','') (case v of None \<Rightarrow> [] | Some s \<Rightarrow> s))
      in if isNaN n then Num 0 else n)"

definition parseDateSafe :: "platform \<Rightarrow> string option \<Rightarrow> int option" where
  "parseDateSafe lib v = lib_dayjs lib v"

text \<open>
  \<^verbatim>\<open>a.diff(b, "day")\<close>: the whole days from \<open>b\<close> to \<open>a\<close>, truncated towards zero; NaN when
  \<open>b\<close> is \<^verbatim>\<open>null\<close>. (A change of the zone offset between the two dates is not modelled.)
\<close>

definition diff_days :: "int \<Rightarrow> int option \<Rightarrow> jsnum" where
  "diff_days a b =
     (case b of
        None \<Rightarrow> NaN
      | Some t \<Rightarrow>
          Num (of_int (if a - t < 0 then - ((t - a) div 86400000) else (a - t) div 86400000)))"

text \<open>\<^verbatim>\<open>v?.trim() || d\<close>\<close>

definition trim_or :: "platform \<Rightarrow> string option \<Rightarrow> string \<Rightarrow> string" where
  "trim_or lib v d =
     (case v of None \<Rightarrow> d | Some s \<Rightarrow> if lib_trim lib s = [] then d else lib_trim lib s)"

record CleanedProject =
  row :: RawRow
  ApprovedBudgetForContract :: jsnum
  ContractCost :: jsnum
  StartDate :: "int option"
  ActualCompletionDate :: int
  FundingYear :: int
  Region :: string
  MainIsland :: string
  Contractor :: string
  TypeOfWork :: string
  CostSavings :: jsnum
  CompletionDelayDays :: jsnum

text \<open>
  One turn of the loop of \<^verbatim>\<open>cleanAndPrepareData\<close>: \<open>Inr None\<close> is \<^verbatim>\<open>continue\<close>, \<open>Inr (Some p)\<close>
  is the project pushed. \<^verbatim>\<open>ActualCompletionDate\<close> is declared \<^verbatim>\<open>const\<close>, so the
  assignment \<^verbatim>\<open>ActualCompletionDate = StartDate\<close>, reached when the completion date is
  \<^verbatim>\<open>null\<close>, throws a TypeError. (The tests \<^verbatim>\<open>=== null\<close> on the two parsed amounts and
  \<^verbatim>\<open>=== ""\<close> on the parsed date are never true.)
\<close>

definition cleanRow :: "platform \<Rightarrow> RawRow \<Rightarrow> js_error + CleanedProject option" where
  "cleanRow lib r =
     (case js_parseInt lib (raw_FundingYear r) of
        None \<Rightarrow> Inr None
      | Some year \<Rightarrow>
          if year = 0 \<or> year < 2021 \<or> year > 2023 then Inr None
          else
            let budget = parseFloatSafe lib (raw_ApprovedBudgetForContract r) in
            if js_le budget (Num 0) then Inr None
            else
              let cost = parseFloatSafe lib (raw_ContractCost r) in
              if js_le cost (Num 0) then Inr None
              else
                let start = parseDateSafe lib (raw_StartDate r) in
                case parseDateSafe lib (raw_ActualCompletionDate r) of
                  None \<Rightarrow> Inl TypeError
                | Some completion \<Rightarrow>
                    Inr (Some \<lparr>
                      row = r,
                      ApprovedBudgetForContract = budget,
                      ContractCost = cost,
                      StartDate = start,
                      ActualCompletionDate = completion,
                      FundingYear = year,
                      Region = trim_or lib (raw_Region r) ''Unknown'',
                      MainIsland = trim_or lib (raw_MainIsland r) ''Unknown'',
                      Contractor = trim_or lib (raw_Contractor r) ''Unknown Contractor'',
                      TypeOfWork = trim_or lib (raw_TypeOfWork r) ''Unspecified'',
                      CostSavings = js_sub budget cost,
                      CompletionDelayDays = diff_days completion start
                    \<rparr>))"

fun cleanLoop :: "platform \<Rightarrow> RawRow list \<Rightarrow> CleanedProject list \<Rightarrow> js_error + CleanedProject list" where
  "cleanLoop lib [] cleaned = Inr cleaned"
| "cleanLoop lib (r # rows) cleaned =
     (case cleanRow lib r of
        Inl e \<Rightarrow> Inl e
      | Inr None \<Rightarrow> cleanLoop lib rows cleaned
      | Inr (Some p) \<Rightarrow> cleanLoop lib rows (cleaned @ [p]))"

definition cleanAndPrepareData :: "platform \<Rightarrow> RawRow list \<Rightarrow> js_error + CleanedProject list" where
  "cleanAndPrepareData lib rawRows = cleanLoop lib rawRows []"

section \<open>Objects used as maps\<close>

text \<open>
  The analyzers group the projects in a plain object used as a map from a string key to
  a group. The object is modelled by its own properties in the order of their creation;
  \<^verbatim>\<open>obj[key]\<close> on a key that is not an own property is \<^verbatim>\<open>undefined\<close>, unless the key names a
  property inherited from \<^verbatim>\<open>Object.prototype\<close>. \<^verbatim>\<open>Object.values\<close> lists the properties
  whose key is an array index first, by ascending index, and then the others in the
  order of their creation.
\<close>

definition object_prototype_keys :: "string list" where
  "object_prototype_keys =
     [''constructor'', ''__defineGetter__'', ''__defineSetter__'', ''hasOwnProperty'',
      ''__lookupGetter__'', ''__lookupSetter__'', ''isPrototypeOf'', ''propertyIsEnumerable'',
      ''toString'', ''valueOf'', ''__proto__'', ''toLocaleString'']"

definition is_digit :: "char \<Rightarrow> bool" where
  "is_digit c = (c \<in> set ''0123456789'')"

definition decimal_value :: "string \<Rightarrow> nat" where
  "decimal_value s = fold (\<lambda>c n. 10 * n + (of_char c - 48)) s 0"

text \<open>An array index is a canonical decimal numeral below \<open>2\<^sup>3\<^sup>2 - 1\<close>.\<close>

definition is_array_index :: "string \<Rightarrow> bool" where
  "is_array_index s =
     (s \<noteq> [] \<and> list_all is_digit s \<and> (s = ''0'' \<or> hd s \<noteq> CHR ''0'')
      \<and> decimal_value s < 4294967295)"

definition object_values :: "(string \<times> 'v) list \<Rightarrow> 'v list" where
  "object_values m =
     map snd (sort_key (\<lambda>kv. decimal_value (fst kv)) (filter (\<lambda>kv. is_array_index (fst kv)) m)
              @ filter (\<lambda>kv. \<not> is_array_index (fst kv)) m)"

text \<open>
  The grouping step of the three analyzers:
  \<^verbatim>\<open>if (!m[key]) m[key] = init;\<close> followed by updates of \<^verbatim>\<open>m[key]\<close>. A group is an object and
  so truthy: for a key that names nothing inherited, \<^verbatim>\<open>!m[key]\<close> holds exactly when the
  key is not yet an own property.
\<close>

definition upsert :: "string \<Rightarrow> 'g \<Rightarrow> ('g \<Rightarrow> 'g) \<Rightarrow> (string \<times> 'g) list \<Rightarrow> (string \<times> 'g) list" where
  "upsert key init f m =
     AList.map_entry key f (if map_of m key = None then m @ [(key, init)] else m)"

section \<open>Regional efficiency report\<close>

text \<open>
  \<^verbatim>\<open>generateReport1\<close>, as revised in the commented copy of the program. A key of
  \<^verbatim>\<open>regionMap\<close> contains the character \<^verbatim>\<open>|\<close>, so it is neither an array index nor a name
  inherited from \<^verbatim>\<open>Object.prototype\<close>: \<^verbatim>\<open>!regionMap[key]\<close> holds exactly when the key is
  new, and \<^verbatim>\<open>Object.values\<close> lists the groups in the order of their creation.
\<close>

record RegionGroup =
  g_Region :: string
  g_MainIsland :: string
  budgets :: "jsnum list"
  savings :: "jsnum list"
  delays :: "jsnum list"

definition region_key :: "CleanedProject \<Rightarrow> string" where
  "region_key r = Region r @ ''|'' @ MainIsland r"

definition region_step :: "CleanedProject \<Rightarrow> (string \<times> RegionGroup) list \<Rightarrow> (string \<times> RegionGroup) list" where
  "region_step r regionMap =
     upsert (region_key r)
       \<lparr> g_Region = Region r, g_MainIsland = MainIsland r, budgets = [], savings = [], delays = [] \<rparr>
       (\<lambda>g. g\<lparr> budgets := budgets g @ [ApprovedBudgetForContract r],
                savings := savings g @ [CostSavings r],
                delays := delays g @ [CompletionDelayDays r] \<rparr>)
       regionMap"

definition regionMap_of :: "CleanedProject list \<Rightarrow> (string \<times> RegionGroup) list" where
  "regionMap_of data = fold region_step data []"

record RegionRow =
  r_Region :: string
  r_MainIsland :: string
  TotalApprovedBudget :: numstr
  MedianCostSavings :: numstr
  AvgCompletionDelayDays :: numstr
  DelayOver30Percent :: numstr
  EfficiencyScore :: jsnum

definition region_result :: "RegionGroup \<Rightarrow> RegionRow" where
  "region_result grp =
     (let avgDelay = average (delays grp);
          delayOver30 =
            js_mul (js_div (Num (real (length (filter (\<lambda>d. js_gt d (Num 30)) (delays grp)))))
                           (Num (real (length (delays grp))))) (Num 100);
          efficiency = js_div (median (savings grp)) avgDelay;
          efficiency = (if \<not> isFinite efficiency \<or> js_lt efficiency (Num 0) then Num 0 else efficiency)
      in \<lparr> r_Region = g_Region grp,
           r_MainIsland = g_MainIsland grp,
           TotalApprovedBudget = formatNumber (js_sum (budgets grp)),
           MedianCostSavings = formatNumber (median (savings grp)),
           AvgCompletionDelayDays = formatNumber avgDelay,
           DelayOver30Percent = formatNumber delayOver30,
           EfficiencyScore = efficiency \<rparr>)"

text \<open>\<^verbatim>\<open>a !== b\<close> on numbers: NaN differs from everything.\<close>

definition js_neq :: "jsnum \<Rightarrow> jsnum \<Rightarrow> bool" where
  "js_neq a b = (isNaN a \<or> isNaN b \<or> a \<noteq> b)"

definition normalize_score :: "jsnum \<Rightarrow> jsnum \<Rightarrow> jsnum \<Rightarrow> jsnum" where
  "normalize_score minEff maxEff e =
     Number_of (toFixed2
       (if isFinite e \<and> js_neq maxEff minEff
        then js_mul (js_div (js_sub e minEff) (js_sub maxEff minEff)) (Num 100)
        else Num 0))"

text \<open>The rows before the normalization of the scores.\<close>

definition region_results :: "CleanedProject list \<Rightarrow> RegionRow list" where
  "region_results data = map region_result (object_values (regionMap_of data))"

definition generateReport1 :: "CleanedProject list \<Rightarrow> RegionRow list" where
  "generateReport1 data =
     (let results = region_results data;
          efficiencies = map EfficiencyScore results;
          minEff = Math_min_list efficiencies;
          maxEff = Math_max_list efficiencies;
          results = map (\<lambda>r. r\<lparr> EfficiencyScore := normalize_score minEff maxEff (EfficiencyScore r) \<rparr>) results
      in js_sort (\<lambda>a b. js_sub (EfficiencyScore b) (EfficiencyScore a)) results)"

section \<open>Contractor reliability report\<close>

text \<open>
  \<^verbatim>\<open>generateReport2\<close>, as revised in the commented copy of the program. The key of
  \<^verbatim>\<open>contractorMap\<close> is the contractor's name. When the name is not yet an own property but
  names a property inherited from \<^verbatim>\<open>Object.prototype\<close>, \<^verbatim>\<open>!contractorMap[key]\<close> is false, no
  group is created, and \<^verbatim>\<open>contractorMap[key].delays.push\<close> throws a TypeError, because
  the inherited value has no \<^verbatim>\<open>delays\<close>.
\<close>

record ContractorGroup =
  g_Contractor :: string
  projects :: nat
  c_delays :: "jsnum list"
  totalSavings :: jsnum
  totalCost :: jsnum

fun contractorLoop ::
  "CleanedProject list \<Rightarrow> (string \<times> ContractorGroup) list \<Rightarrow> js_error + (string \<times> ContractorGroup) list" where
  "contractorLoop [] contractorMap = Inr contractorMap"
| "contractorLoop (r # data) contractorMap =
     (if Contractor r = [] then contractorLoop data contractorMap
      else
        let key = Contractor r in
        if map_of contractorMap key = None \<and> key \<in> set object_prototype_keys then Inl TypeError
        else
          contractorLoop data
            (upsert key
               \<lparr> g_Contractor = key, projects = 0, c_delays = [],
                 totalSavings = Num 0, totalCost = Num 0 \<rparr>
               (\<lambda>c. c\<lparr> projects := projects c + 1,
                        c_delays := c_delays c @ [CompletionDelayDays r],
                        totalSavings := js_add (totalSavings c) (CostSavings r),
                        totalCost := js_add (totalCost c) (ContractCost r) \<rparr>)
               contractorMap))"

record ContractorRow =
  c_Contractor :: string
  TotalCost :: numstr
  NumProjects :: nat
  AvgDelay :: numstr
  TotalSavings :: numstr
  ReliabilityIndex :: numstr
  RiskFlag :: string

text \<open>The row with its temporary field \<^verbatim>\<open>_rawTotalCost\<close>.\<close>

record ContractorRowRaw = ContractorRow +
  rawTotalCost :: jsnum

definition contractor_result :: "ContractorGroup \<Rightarrow> ContractorRowRaw" where
  "contractor_result c =
     (let avgDelay = average (c_delays c);
          reliability =
            js_mul (js_mul (js_sub (Num 1) (js_div avgDelay (Num 90)))
                           (js_div (totalSavings c) (totalCost c))) (Num 100);
          reliability = (if \<not> isFinite reliability then Num 0 else reliability);
          reliability = Math_min (Num 100) reliability
      in \<lparr> c_Contractor = g_Contractor c,
           TotalCost = formatNumber (totalCost c),
           NumProjects = projects c,
           AvgDelay = formatNumber avgDelay,
           TotalSavings = formatNumber (totalSavings c),
           ReliabilityIndex = formatNumber reliability,
           RiskFlag = (if js_lt reliability (Num 50) then ''High Risk'' else ''Low Risk''),
           rawTotalCost = totalCost c \<rparr>)"

text \<open>The rows ranked and cut to fifteen, before \<^verbatim>\<open>_rawTotalCost\<close> is deleted.\<close>

definition contractor_ranking :: "(string \<times> ContractorGroup) list \<Rightarrow> ContractorRowRaw list" where
  "contractor_ranking contractorMap =
     take 15 (js_sort (\<lambda>a b. js_sub (rawTotalCost b) (rawTotalCost a))
                (map contractor_result (filter (\<lambda>c. 5 \<le> projects c) (object_values contractorMap))))"

definition generateReport2 :: "CleanedProject list \<Rightarrow> js_error + ContractorRow list" where
  "generateReport2 data =
     (case contractorLoop data [] of
        Inl e \<Rightarrow> Inl e
      | Inr contractorMap \<Rightarrow> Inr (map ContractorRow.truncate (contractor_ranking contractorMap)))"

section \<open>Cost-trend report\<close>

text \<open>
  \<^verbatim>\<open>generateReport3\<close>, as revised in the commented copy of the program. A key of \<^verbatim>\<open>typeMap\<close>
  contains \<^verbatim>\<open>|\<close> as well. The funding year is an integer, written in decimal in the key.
\<close>

record TypeGroup =
  t_FundingYear :: int
  t_TypeOfWork :: string
  t_savings :: "jsnum list"

definition show_int :: "int \<Rightarrow> string" where
  "show_int i = (if i < 0 then ''-'' else []) @ digits (nat \<bar>i\<bar>)"

definition type_key :: "CleanedProject \<Rightarrow> string" where
  "type_key r = show_int (FundingYear r) @ ''|'' @ TypeOfWork r"

definition type_step :: "CleanedProject \<Rightarrow> (string \<times> TypeGroup) list \<Rightarrow> (string \<times> TypeGroup) list" where
  "type_step r typeMap =
     upsert (type_key r)
       \<lparr> t_FundingYear = FundingYear r, t_TypeOfWork = TypeOfWork r, t_savings = [] \<rparr>
       (\<lambda>g. g\<lparr> t_savings := t_savings g @ [CostSavings r] \<rparr>)
       typeMap"

definition typeMap_of :: "CleanedProject list \<Rightarrow> (string \<times> TypeGroup) list" where
  "typeMap_of data = fold type_step data []"

text \<open>\<^verbatim>\<open>x || d\<close> on a table entry that may be missing.\<close>

definition or_default :: "jsnum option \<Rightarrow> jsnum \<Rightarrow> jsnum" where
  "or_default x d = (case x of None \<Rightarrow> d | Some v \<Rightarrow> if truthy v then v else d)"

text \<open>
  The callback of \<^verbatim>\<open>map\<close> builds the row of a group and adds the group to the tables
  \<^verbatim>\<open>yearTotals\<close> and \<^verbatim>\<open>yearCounts\<close>; the row does not read the tables, so the two are
  modelled apart.
\<close>

definition year_step ::
  "TypeGroup \<Rightarrow> (int \<Rightarrow> jsnum option) \<times> (int \<Rightarrow> jsnum option) \<Rightarrow> (int \<Rightarrow> jsnum option) \<times> (int \<Rightarrow> jsnum option)" where
  "year_step grp tabs =
     (case tabs of (yearTotals, yearCounts) \<Rightarrow>
        let year = t_FundingYear grp in
        (yearTotals(year \<mapsto> js_add (or_default (yearTotals year) (Num 0)) (js_sum (t_savings grp))),
         yearCounts(year \<mapsto> js_add (or_default (yearCounts year) (Num 0))
                               (Num (real (length (t_savings grp)))))))"

definition weightedYearAvg :: "TypeGroup list \<Rightarrow> int \<Rightarrow> jsnum option" where
  "weightedYearAvg groups year =
     (case fold year_step groups (Map.empty, Map.empty) of (yearTotals, yearCounts) \<Rightarrow>
        case yearTotals year of
          None \<Rightarrow> None
        | Some t \<Rightarrow> Some (js_div t (case yearCounts year of None \<Rightarrow> NaN | Some c \<Rightarrow> c)))"

record TrendRow =
  FundingYear_of :: int
  TypeOfWork_of :: string
  TotalProjects :: nat
  AvgCostSavings :: numstr
  OverrunRate :: numstr
  YoYChange :: numstr

record TrendRowRaw = TrendRow +
  rawAvgSavings :: jsnum

definition yoy_change :: "TypeGroup list \<Rightarrow> int \<Rightarrow> numstr" where
  "yoy_change groups year =
     (let baseline = or_default (weightedYearAvg groups 2021) (Num 0);
          yearAvg = or_default (weightedYearAvg groups year) (Num 0);
          change = (if year = 2021 then Num 0
                    else js_mul (js_div (js_sub yearAvg baseline)
                                        (Math_abs (if truthy baseline then baseline else Num 1)))
                                (Num 100))
      in toFixed2 change)"

definition trend_result :: "TypeGroup list \<Rightarrow> TypeGroup \<Rightarrow> TrendRowRaw" where
  "trend_result groups grp =
     (let totalProjects = length (t_savings grp);
          avgSavings = average (t_savings grp);
          overrunRate =
            (if length (t_savings grp) \<noteq> 0
             then js_mul (js_div (Num (real (length (filter (\<lambda>s. js_lt s (Num 0)) (t_savings grp)))))
                                 (Num (real (length (t_savings grp))))) (Num 100)
             else Num 0)
      in \<lparr> FundingYear_of = t_FundingYear grp,
           TypeOfWork_of = t_TypeOfWork grp,
           TotalProjects = totalProjects,
           AvgCostSavings = formatNumber avgSavings,
           OverrunRate = formatNumber overrunRate,
           YoYChange = yoy_change groups (t_FundingYear grp),
           rawAvgSavings = avgSavings \<rparr>)"

definition trend_compare :: "TrendRowRaw \<Rightarrow> TrendRowRaw \<Rightarrow> jsnum" where
  "trend_compare a b =
     (if FundingYear_of a \<noteq> FundingYear_of b
      then Num (of_int (FundingYear_of a - FundingYear_of b))
      else js_sub (rawAvgSavings b) (rawAvgSavings a))"

definition generateReport3 :: "CleanedProject list \<Rightarrow> TrendRow list" where
  "generateReport3 data =
     (let groups = object_values (typeMap_of data)
      in map TrendRow.truncate (js_sort trend_compare (map (trend_result groups) groups)))"

section \<open>The earlier copy of the program\<close>

text \<open>
  The repository holds the program twice. The copy modelled so far is the commented
  one; the other, \<^verbatim>\<open>main.js\<close>, has the same parsing functions, the same \<^verbatim>\<open>median\<close>, the
  same cleaner and the same grouping loops, and earlier versions of \<^verbatim>\<open>average\<close> and of
  what the three analyzers compute from the groups. These earlier versions are
  modelled here, under the names of the source followed by \<open>_main\<close>.
\<close>

text \<open>\<^verbatim>\<open>average\<close> of \<^verbatim>\<open>main.js\<close>: the sum of all entries over their number.\<close>

definition average_main :: "jsnum list \<Rightarrow> jsnum" where
  "average_main arr =
     (if length arr \<noteq> 0 then js_div (js_sum arr) (Num (real (length arr))) else Num 0)"

text \<open>
  \<^verbatim>\<open>main.js\<close> sorts its rows on fields that hold formatted texts, by subtracting them.
  The subtraction converts a text to a number: a text with a thousands separator
  (a magnitude from 1,000.00 on) and the text of an infinity convert to NaN.
\<close>

fun Number_of_grouped :: "numstr \<Rightarrow> jsnum" where
  "Number_of_grouped (Dec neg n) = (if 100000 \<le> n then NaN else Number_of (Dec neg n))"
| "Number_of_grouped _ = NaN"

record RegionRow_main =
  m_Region :: string
  m_MainIsland :: string
  m_TotalApprovedBudget :: numstr
  m_MedianCostSavings :: numstr
  m_AvgCompletionDelayDays :: numstr
  m_DelayOver30Percent :: numstr
  m_EfficiencyScore :: numstr

definition region_result_main :: "RegionGroup \<Rightarrow> RegionRow_main" where
  "region_result_main grp =
     (let avgDelay = average_main (delays grp);
          delayOver30 =
            js_mul (js_div (Num (real (length (filter (\<lambda>d. js_gt d (Num 30)) (delays grp)))))
                           (Num (real (length (delays grp))))) (Num 100);
          efficiency = js_mul (js_div (median (savings grp)) avgDelay) (Num 100);
          efficiency = (if \<not> isFinite efficiency \<or> js_lt efficiency (Num 0) then Num 0 else efficiency);
          efficiency = Math_min (Num 100) (Math_max (Num 0) efficiency)
      in \<lparr> m_Region = g_Region grp,
           m_MainIsland = g_MainIsland grp,
           m_TotalApprovedBudget = formatNumber (js_sum (budgets grp)),
           m_MedianCostSavings = formatNumber (median (savings grp)),
           m_AvgCompletionDelayDays = formatNumber avgDelay,
           m_DelayOver30Percent = formatNumber delayOver30,
           m_EfficiencyScore = formatNumber efficiency \<rparr>)"

definition generateReport1_main :: "CleanedProject list \<Rightarrow> RegionRow_main list" where
  "generateReport1_main data =
     js_sort (\<lambda>a b. js_sub (Number_of_grouped (m_EfficiencyScore b))
                            (Number_of_grouped (m_EfficiencyScore a)))
       (map region_result_main (object_values (regionMap_of data)))"

record ContractorRow_main =
  m_Contractor :: string
  m_Projects :: nat
  m_AvgDelay :: numstr
  m_TotalCostSavings :: numstr
  m_ReliabilityIndex :: numstr
  m_RiskFlag :: string

definition contractor_result_main :: "ContractorGroup \<Rightarrow> ContractorRow_main" where
  "contractor_result_main c =
     (let avgDelay = average_main (c_delays c);
          reliability =
            js_mul (js_mul (js_sub (Num 1) (js_div avgDelay (Num 90)))
                           (js_div (totalSavings c) (totalCost c))) (Num 100);
          reliability = (if \<not> isFinite reliability then Num 0 else reliability);
          reliability = Math_min (Num 100) (Math_max (Num 0) reliability)
      in \<lparr> m_Contractor = g_Contractor c,
           m_Projects = projects c,
           m_AvgDelay = formatNumber avgDelay,
           m_TotalCostSavings = formatNumber (totalSavings c),
           m_ReliabilityIndex = formatNumber reliability,
           m_RiskFlag = (if js_lt reliability (Num 50) then ''High Risk'' else ''OK'') \<rparr>)"

definition generateReport2_main :: "CleanedProject list \<Rightarrow> js_error + ContractorRow_main list" where
  "generateReport2_main data =
     (case contractorLoop data [] of
        Inl e \<Rightarrow> Inl e
      | Inr contractorMap \<Rightarrow>
          Inr (take 15
                (js_sort (\<lambda>a b. js_sub (Number_of_grouped (m_TotalCostSavings b))
                                       (Number_of_grouped (m_TotalCostSavings a)))
                   (map contractor_result_main
                      (filter (\<lambda>c. 5 \<le> projects c) (object_values contractorMap))))))"

text \<open>
  \<^verbatim>\<open>avgSavingsByYear\<close>: for each funding year the average savings of its groups, in the
  order of the groups. An entry is created and pushed to in the same step, so an entry
  is never an empty array; the empty list stands for the missing entry.
\<close>

definition avg_step :: "TypeGroup \<Rightarrow> (int \<Rightarrow> jsnum list) \<Rightarrow> (int \<Rightarrow> jsnum list)" where
  "avg_step grp avgSavingsByYear =
     avgSavingsByYear
       (t_FundingYear grp := avgSavingsByYear (t_FundingYear grp) @ [average_main (t_savings grp)])"

definition avgSavingsByYear_of :: "TypeGroup list \<Rightarrow> int \<Rightarrow> jsnum list" where
  "avgSavingsByYear_of groups = fold avg_step groups (\<lambda>y. [])"

record TrendRow_main =
  m_FundingYear :: int
  m_TypeOfWork :: string
  m_TotalProjects :: nat
  m_AvgCostSavings :: numstr
  m_OverrunRate :: numstr
  m_YoYChangePercent :: numstr

definition yoy_change_main :: "TypeGroup list \<Rightarrow> int \<Rightarrow> numstr" where
  "yoy_change_main groups year =
     (let baseline = average_main (if avgSavingsByYear_of groups 2021 = [] then [Num 0]
                                   else avgSavingsByYear_of groups 2021);
          yearAvg = average_main (avgSavingsByYear_of groups year);
          change = (if year = 2021 then Num 0
                    else js_mul (js_div (js_sub yearAvg baseline)
                                        (Math_abs (if truthy baseline then baseline else Num 1)))
                                (Num 100))
      in toFixed2 change)"

definition trend_result_main :: "TypeGroup list \<Rightarrow> TypeGroup \<Rightarrow> TrendRow_main" where
  "trend_result_main groups grp =
     (let avgSavings = average_main (t_savings grp);
          overrunRate =
            js_mul (js_div (Num (real (length (filter (\<lambda>s. js_lt s (Num 0)) (t_savings grp)))))
                           (Num (real (length (t_savings grp))))) (Num 100)
      in \<lparr> m_FundingYear = t_FundingYear grp,
           m_TypeOfWork = t_TypeOfWork grp,
           m_TotalProjects = length (t_savings grp),
           m_AvgCostSavings = formatNumber avgSavings,
           m_OverrunRate = formatNumber overrunRate,
           m_YoYChangePercent = yoy_change_main groups (t_FundingYear grp) \<rparr>)"

text \<open>\<^verbatim>\<open>a.FundingYear - b.FundingYear || b.AvgCostSavings - a.AvgCostSavings\<close>\<close>

definition trend_compare_main :: "TrendRow_main \<Rightarrow> TrendRow_main \<Rightarrow> jsnum" where
  "trend_compare_main a b =
     (if m_FundingYear a - m_FundingYear b \<noteq> 0
      then Num (of_int (m_FundingYear a - m_FundingYear b))
      else js_sub (Number_of_grouped (m_AvgCostSavings b)) (Number_of_grouped (m_AvgCostSavings a)))"

definition generateReport3_main :: "CleanedProject list \<Rightarrow> TrendRow_main list" where
  "generateReport3_main data =
     (let groups = object_values (typeMap_of data)
      in js_sort trend_compare_main (map (trend_result_main groups) groups))"

section \<open>Reference notions used in the statements\<close>

text \<open>The nearest hundredth of a real, a tie going away from zero.\<close>

definition round2 :: "real \<Rightarrow> real" where
  "round2 r = (if r < 0 then - 1 else 1) * (real (hundredths r) / 100)"

text \<open>The finite entries of a JavaScript array of numbers, as reals.\<close>

fun finite_entries :: "jsnum list \<Rightarrow> real list" where
  "finite_entries [] = []"
| "finite_entries (Num r # xs) = r # finite_entries xs"
| "finite_entries (_ # xs) = finite_entries xs"

text \<open>
  The acceptance condition of the cleaner in the words of the specification: the
  funding year parses to 2021, 2022 or 2023, and the approved budget and the contract
  cost, parsed by \<^verbatim>\<open>parseFloatSafe\<close>, are strictly positive.
\<close>

definition accepted :: "platform \<Rightarrow> RawRow \<Rightarrow> bool" where
  "accepted lib r =
     ((case js_parseInt lib (raw_FundingYear r) of
         None \<Rightarrow> False
       | Some y \<Rightarrow> y \<in> {2021, 2022, 2023})
      \<and> js_gt (parseFloatSafe lib (raw_ApprovedBudgetForContract r)) (Num 0)
      \<and> js_gt (parseFloatSafe lib (raw_ContractCost r)) (Num 0))"

text \<open>
  What the platform functions return on the strings of the examples below:
  \<^verbatim>\<open>parseInt("2021")\<close> is 2021, \<^verbatim>\<open>parseFloat("100")\<close> is 100, \<^verbatim>\<open>parseFloat("80")\<close> is 80,
  \<^verbatim>\<open>parseFloat("Infinity")\<close> is Infinity, \<^verbatim>\<open>parseFloat("")\<close> is NaN, \<^verbatim>\<open>dayjs("2021-01-01")\<close>
  and \<^verbatim>\<open>dayjs("2021-03-02")\<close> are valid dates sixty days apart, \<^verbatim>\<open>dayjs("")\<close> is invalid, and
  \<^verbatim>\<open>trim\<close> returns a string with no white space at either end as it is. No example
  calls them on another argument.
\<close>

definition sample_lib :: platform where
  "sample_lib = \<lparr>
     lib_parseInt = (\<lambda>s. if s = ''2021'' then Some 2021 else None),
     lib_parseFloat = (\<lambda>s. if s = ''100'' then Num 100 else if s = ''80'' then Num 80
                             else if s = ''Infinity'' then PosInf else NaN),
     lib_dayjs = (\<lambda>v. if v = Some ''2021-01-01'' then Some 1609459200000
                        else if v = Some ''2021-03-02'' then Some 1614643200000 else None),
     lib_trim = (\<lambda>s. s) \<rparr>"

definition sample_row :: "string \<Rightarrow> string \<Rightarrow> RawRow" where
  "sample_row start completion = \<lparr>
     raw_FundingYear = Some ''2021'',
     raw_ApprovedBudgetForContract = Some ''100'',
     raw_ContractCost = Some ''80'',
     raw_StartDate = Some start,
     raw_ActualCompletionDate = Some completion,
     raw_Region = Some ''NCR'',
     raw_MainIsland = Some ''Luzon'',
     raw_Contractor = Some ''ACME'',
     raw_TypeOfWork = Some ''Dike'' \<rparr>"

text \<open>The real that a finite number denotes (0 for the three special values).\<close>

fun num_val :: "jsnum \<Rightarrow> real" where
  "num_val (Num r) = r"
| "num_val _ = 0"

text \<open>
  A cleaned project for the examples, given by its region, island, contractor, type of
  work, funding year, budget, cost and delay in days; without a delay the project is
  one whose start date did not parse.
\<close>

definition sample_project ::
  "string \<Rightarrow> string \<Rightarrow> string \<Rightarrow> string \<Rightarrow> int \<Rightarrow> real \<Rightarrow> real \<Rightarrow> int option \<Rightarrow> CleanedProject" where
  "sample_project region island contractor work year budget cost delay =
     \<lparr> row = sample_row [] [],
       ApprovedBudgetForContract = Num budget,
       ContractCost = Num cost,
       StartDate = (case delay of None \<Rightarrow> None | Some d \<Rightarrow> Some 0),
       ActualCompletionDate = (case delay of None \<Rightarrow> 0 | Some d \<Rightarrow> d * 86400000),
       FundingYear = year,
       Region = region,
       MainIsland = island,
       Contractor = contractor,
       TypeOfWork = work,
       CostSavings = Num (budget - cost),
       CompletionDelayDays = (case delay of None \<Rightarrow> NaN | Some d \<Rightarrow> Num (of_int d)) \<rparr>"

text \<open>Three projects of one region, as in the scenario of the specification, and one of another.\<close>

definition sample_data :: "CleanedProject list" where
  "sample_data =
     [sample_project ''NCR'' ''Luzon'' ''ACME'' ''Dike'' 2021 100 80 (Some 10),
      sample_project ''NCR'' ''Luzon'' ''ACME'' ''Dike'' 2021 200 150 (Some 40),
      sample_project ''NCR'' ''Luzon'' ''ACME'' ''Dike'' 2022 50 60 (Some 5),
      sample_project ''Region VII'' ''Visayas'' ''Bato'' ''Drainage'' 2022 300 250 (Some 20)]"

text \<open>
  The groups of a funding year, and the average of their average savings, each weighted
  by the number of projects of its group.
\<close>

definition year_groups :: "TypeGroup list \<Rightarrow> int \<Rightarrow> TypeGroup list" where
  "year_groups groups y = filter (\<lambda>g. t_FundingYear g = y) groups"

definition weighted_avg :: "TypeGroup list \<Rightarrow> real" where
  "weighted_avg gs =
     (\<Sum>g\<leftarrow>gs. real (length (t_savings g)) * num_val (average (t_savings g)))
       / (\<Sum>g\<leftarrow>gs. real (length (t_savings g)))"

text \<open>
  The year-over-year change as the revised copy computes it: against the 2021 weighted
  average (0 without a 2021 group), divided by its magnitude, or by 1 when it is zero.
\<close>

definition yoy_amended :: "TypeGroup list \<Rightarrow> int \<Rightarrow> real" where
  "yoy_amended groups y =
     (if y = 2021 then 0
      else
        let b = (if year_groups groups 2021 = [] then 0 else weighted_avg (year_groups groups 2021));
            a = weighted_avg (year_groups groups y)
        in (a - b) / (if b = 0 then 1 else \<bar>b\<bar>) * 100)"




text \<open>A group as the grouping loop leaves it: not empty, all savings finite.\<close>

definition sound_group :: "TypeGroup \<Rightarrow> bool" where
  "sound_group g = (t_savings g \<noteq> [] \<and> (\<forall>s\<in>set (t_savings g). isFinite s))"

text \<open>
  What the contractor groups hold once the projects \<open>seen\<close> are grouped: one group for
  each contractor name, with the number of its projects and the sum of their contract
  costs.
\<close>

definition counted :: "(string \<times> ContractorGroup) list \<Rightarrow> CleanedProject list \<Rightarrow> bool" where
  "counted m seen =
     (distinct (map fst m)
      \<and> (\<forall>p\<in>set seen. Contractor p \<noteq> [] \<longrightarrow> Contractor p \<in> fst ` set m)
      \<and> (\<forall>kv\<in>set m. fst kv \<noteq> [] \<and> g_Contractor (snd kv) = fst kv
            \<and> projects (snd kv) = length (filter (\<lambda>p. Contractor p = fst kv) seen)
            \<and> totalCost (snd kv) = js_sum (map ContractCost (filter (\<lambda>p. Contractor p = fst kv) seen))))"

text \<open>Is the text that of a decimal number (and not of an infinity or NaN)?\<close>

fun is_decimal :: "numstr \<Rightarrow> bool" where
  "is_decimal (Dec _ _) = True"
| "is_decimal _ = False"

text \<open>
  Five projects of one contractor, four of a second with the highest costs, and six of
  a third whose start dates did not parse; and two projects of two funding years.
\<close>

definition ranking_data :: "CleanedProject list" where
  "ranking_data =
     replicate 5 (sample_project ''NCR'' ''Luzon'' ''ACME'' ''Dike'' 2021 100 80 (Some 10))
     @ replicate 4 (sample_project ''NCR'' ''Luzon'' ''Bato'' ''Dike'' 2022 9000 8000 (Some 20))
     @ replicate 6 (sample_project ''NCR'' ''Luzon'' ''Cruz'' ''Dike'' 2023 300 250 None)"

definition trend_data :: "CleanedProject list" where
  "trend_data =
     [sample_project ''NCR'' ''Luzon'' ''ACME'' ''Dike'' 2021 (3 / 2) 1 (Some 10),
      sample_project ''NCR'' ''Luzon'' ''ACME'' ''Dike'' 2022 (5 / 2) 1 (Some 10)]"

text \<open>
  A project whose amounts are finite numbers and whose delay is a finite number or NaN:
  what the cleaner produces from amounts that parse to finite numbers.
\<close>

definition finite_project :: "CleanedProject \<Rightarrow> bool" where
  "finite_project p =
     (isFinite (ApprovedBudgetForContract p) \<and> isFinite (ContractCost p) \<and> isFinite (CostSavings p)
      \<and> CompletionDelayDays p \<noteq> PosInf \<and> CompletionDelayDays p \<noteq> NegInf)"

text \<open>The groups that the grouping loops build from such projects.\<close>

definition sound_region :: "RegionGroup \<Rightarrow> bool" where
  "sound_region g =
     (delays g \<noteq> [] \<and> (\<forall>b\<in>set (budgets g). isFinite b) \<and> (\<forall>s\<in>set (savings g). isFinite s)
      \<and> (\<forall>d\<in>set (delays g). d \<noteq> PosInf \<and> d \<noteq> NegInf))"

definition sound_contractor :: "ContractorGroup \<Rightarrow> bool" where
  "sound_contractor c =
     (isFinite (totalSavings c) \<and> isFinite (totalCost c)
      \<and> (\<forall>d\<in>set (c_delays c). d \<noteq> PosInf \<and> d \<noteq> NegInf))"

text \<open>
  Two contractors with five projects each, the one with the higher total cost having
  the lower total savings; and a funding year with two groups of different sizes.
\<close>

definition ranking_data2 :: "CleanedProject list" where
  "ranking_data2 =
     replicate 5 (sample_project ''NCR'' ''Luzon'' ''ACME'' ''Dike'' 2021 200 100 (Some 10))
     @ replicate 5 (sample_project ''NCR'' ''Luzon'' ''Bato'' ''Dike'' 2022 1010 1000 (Some 20))"

definition trend_data2 :: "CleanedProject list" where
  "trend_data2 =
     [sample_project ''NCR'' ''Luzon'' ''ACME'' ''Dike'' 2021 110 100 (Some 10),
      sample_project ''NCR'' ''Luzon'' ''ACME'' ''Dike'' 2022 110 100 (Some 10),
      sample_project ''NCR'' ''Luzon'' ''ACME'' ''Dike'' 2022 110 100 (Some 10),
      sample_project ''NCR'' ''Luzon'' ''ACME'' ''Dike'' 2022 110 100 (Some 10),
      sample_project ''NCR'' ''Luzon'' ''ACME'' ''Drainage'' 2022 150 100 (Some 10)]"

text \<open>
  A raw row whose budget cell reads \<^verbatim>\<open>Infinity\<close>, and the project that the cleaner makes
  of it.
\<close>

definition infinite_budget_row :: RawRow where
  "infinite_budget_row =
     (sample_row ''2021-01-01'' ''2021-03-02'') \<lparr> raw_ApprovedBudgetForContract := Some ''Infinity'' \<rparr>"

definition infinite_budget_project :: CleanedProject where
  "infinite_budget_project =
     \<lparr> row = infinite_budget_row,
       ApprovedBudgetForContract = PosInf,
       ContractCost = Num 80,
       StartDate = Some 1609459200000,
       ActualCompletionDate = 1614643200000,
       FundingYear = 2021,
       Region = ''NCR'',
       MainIsland = ''Luzon'',
       Contractor = ''ACME'',
       TypeOfWork = ''Dike'',
       CostSavings = PosInf,
       CompletionDelayDays = Num 60 \<rparr>"

section \<open>Numbers and decimal strings: basic facts\<close>

lemma hundredths_bounds:
  "real (hundredths r) \<le> \<bar>r\<bar> * 100 + 1 / 2" "\<bar>r\<bar> * 100 - 1 / 2 < real (hundredths r)"
proof -
  let ?a = "\<bar>r\<bar> * 100 + 1 / 2"
  have nonneg: "0 \<le> \<lfloor>?a\<rfloor>" by simp
  have eq: "real (hundredths r) = of_int \<lfloor>?a\<rfloor>"
    using nonneg by (simp add: hundredths_def)
  show "real (hundredths r) \<le> ?a" unfolding eq by linarith
  show "\<bar>r\<bar> * 100 - 1 / 2 < real (hundredths r)" unfolding eq by linarith
qed

lemma round2_close: "\<bar>round2 r - r\<bar> \<le> 1 / 200"
proof (cases "r < 0")
  case True
  then have "round2 r - r = - (real (hundredths r) / 100 - \<bar>r\<bar>)" by (simp add: round2_def)
  then show ?thesis using hundredths_bounds [of r] by linarith
next
  case False
  then have "round2 r - r = real (hundredths r) / 100 - \<bar>r\<bar>" by (simp add: round2_def)
  then show ?thesis using hundredths_bounds [of r] by linarith
qed

lemma Number_toFixed2: "Number_of (toFixed2 (Num r)) = Num (round2 r)"
  by (simp add: round2_def)

lemma fold_add_Num: "fold (\<lambda>b a. js_add a b) (map Num rs) (Num s) = Num (s + sum_list rs)"
  by (induction rs arbitrary: s) auto

lemma js_sum_Num: "js_sum (map Num rs) = Num (sum_list rs)"
  by (simp add: js_sum_def fold_add_Num)

section \<open>Record cleaner: properties\<close>

lemma parseFloatSafe_not_NaN: "\<not> isNaN (parseFloatSafe lib v)"
  by (simp add: parseFloatSafe_def Let_def)

lemma not_le_zero_iff: "\<not> isNaN a \<Longrightarrow> (\<not> js_le a (Num 0)) = js_gt a (Num 0)"
  by (cases a) (auto simp: js_le_def js_gt_def)

lemma cleanRow_rejected: "\<not> accepted lib r \<Longrightarrow> cleanRow lib r = Inr None"
  using not_le_zero_iff [OF parseFloatSafe_not_NaN, of lib "raw_ApprovedBudgetForContract r"]
        not_le_zero_iff [OF parseFloatSafe_not_NaN, of lib "raw_ContractCost r"]
  by (auto simp: accepted_def cleanRow_def Let_def split: option.splits)

lemma cleanRow_throws:
  "accepted lib r \<Longrightarrow> parseDateSafe lib (raw_ActualCompletionDate r) = None \<Longrightarrow>
     cleanRow lib r = Inl TypeError"
  using not_le_zero_iff [OF parseFloatSafe_not_NaN, of lib "raw_ApprovedBudgetForContract r"]
        not_le_zero_iff [OF parseFloatSafe_not_NaN, of lib "raw_ContractCost r"]
  by (auto simp: accepted_def cleanRow_def Let_def split: option.splits)

lemma cleanRow_emits:
  "accepted lib r \<Longrightarrow> parseDateSafe lib (raw_ActualCompletionDate r) = Some c \<Longrightarrow>
     \<exists>p. cleanRow lib r = Inr (Some p) \<and> row p = r"
  using not_le_zero_iff [OF parseFloatSafe_not_NaN, of lib "raw_ApprovedBudgetForContract r"]
        not_le_zero_iff [OF parseFloatSafe_not_NaN, of lib "raw_ContractCost r"]
  by (auto simp: accepted_def cleanRow_def Let_def split: option.splits)

text \<open>When the completion date of every accepted row parses, the cleaner returns.\<close>

lemma cleanLoop_total:
  "\<forall>r\<in>set rows. accepted lib r \<longrightarrow> parseDateSafe lib (raw_ActualCompletionDate r) \<noteq> None \<Longrightarrow>
     \<exists>ps. cleanLoop lib rows acc = Inr (acc @ ps) \<and> map row ps = filter (accepted lib) rows"
proof (induction rows arbitrary: acc)
  case Nil
  then show ?case by simp
next
  case (Cons r rows)
  show ?case
  proof (cases "accepted lib r")
    case False
    then show ?thesis using Cons by (simp add: cleanRow_rejected)
  next
    case True
    with Cons.prems obtain c where c: "parseDateSafe lib (raw_ActualCompletionDate r) = Some c"
      by auto
    from cleanRow_emits [OF True c] obtain p where p: "cleanRow lib r = Inr (Some p)" "row p = r"
      by blast
    from Cons.prems
    have "\<forall>r\<in>set rows. accepted lib r \<longrightarrow> parseDateSafe lib (raw_ActualCompletionDate r) \<noteq> None"
      by simp
    from Cons.IH [OF this, of "acc @ [p]"] obtain ps where
      ps: "cleanLoop lib rows (acc @ [p]) = Inr ((acc @ [p]) @ ps)"
          "map row ps = filter (accepted lib) rows"
      by blast
    show ?thesis using True p ps by (intro exI [of _ "p # ps"]) simp
  qed
qed

lemmas sample_defs =
  accepted_def cleanAndPrepareData_def cleanRow_def sample_lib_def sample_row_def
  js_parseInt_def parseFloatSafe_def parseDateSafe_def js_gt_def js_le_def diff_days_def
  trim_or_def js_sub_def

text \<open>
  Claim C1 says that a row yields a project exactly when its funding year is 2021, 2022
  or 2023 and its budget and cost are positive. The row below meets the condition, its
  completion date is empty, and the cleaner throws instead of emitting a project: the
  imputation \<^verbatim>\<open>ActualCompletionDate = StartDate\<close> assigns to a \<^verbatim>\<open>const\<close>.
\<close>

theorem cleaner_throws_on_missing_completion_date:
  "accepted sample_lib (sample_row ''2021-01-01'' [])
   \<and> cleanAndPrepareData sample_lib [sample_row ''2021-01-01'' []] = Inl TypeError"
  by (simp add: sample_defs)

lemma cleanRow_skips:
  "cleanRow lib r = Inr None \<Longrightarrow> \<not> accepted lib r"
  using not_le_zero_iff [OF parseFloatSafe_not_NaN, of lib "raw_ApprovedBudgetForContract r"]
        not_le_zero_iff [OF parseFloatSafe_not_NaN, of lib "raw_ContractCost r"]
  by (auto simp: accepted_def cleanRow_def Let_def split: option.splits if_splits)

lemma cleanRow_project:
  assumes "cleanRow lib r = Inr (Some p)"
  shows "accepted lib r \<and> row p = r \<and> StartDate p = parseDateSafe lib (raw_StartDate r)
     \<and> CompletionDelayDays p = diff_days (ActualCompletionDate p) (StartDate p)"
proof -
  have "accepted lib r" using assms cleanRow_rejected [of lib r] by auto
  moreover have "row p = r \<and> StartDate p = parseDateSafe lib (raw_StartDate r)
     \<and> CompletionDelayDays p = diff_days (ActualCompletionDate p) (StartDate p)"
    using assms by (auto simp: cleanRow_def Let_def split: option.splits if_splits)
  ultimately show ?thesis by simp
qed

lemma cleanLoop_filter:
  "cleanLoop lib rows acc = cleanLoop lib (filter (accepted lib) rows) acc"
proof (induction rows arbitrary: acc)
  case Nil
  then show ?case by simp
next
  case (Cons r rows)
  show ?case
  proof (cases "accepted lib r")
    case False
    then show ?thesis using Cons by (simp add: cleanRow_rejected)
  next
    case True
    then show ?thesis using Cons by (simp split: sum.splits option.splits)
  qed
qed

lemma cleanLoop_returned:
  "cleanLoop lib rows acc = Inr out \<Longrightarrow>
     \<exists>ps. out = acc @ ps \<and> map row ps = filter (accepted lib) rows
        \<and> (\<forall>p\<in>set ps. StartDate p = parseDateSafe lib (raw_StartDate (row p))
              \<and> CompletionDelayDays p = diff_days (ActualCompletionDate p) (StartDate p))"
proof (induction rows arbitrary: acc)
  case Nil
  then show ?case by simp
next
  case (Cons r rows)
  show ?case
  proof (cases "cleanRow lib r")
    case (Inl e)
    then show ?thesis using Cons.prems by simp
  next
    case (Inr v)
    show ?thesis
    proof (cases v)
      case None
      then have "\<not> accepted lib r" using Inr by (simp add: cleanRow_skips)
      moreover have "cleanLoop lib rows acc = Inr out" using Cons.prems Inr None by simp
      ultimately show ?thesis using Cons.IH [of acc] by simp
    next
      case (Some p)
      from cleanRow_project [of lib r p] Inr Some
      have p: "accepted lib r" "row p = r" "StartDate p = parseDateSafe lib (raw_StartDate r)"
        "CompletionDelayDays p = diff_days (ActualCompletionDate p) (StartDate p)"
        by simp_all
      have "cleanLoop lib rows (acc @ [p]) = Inr out" using Cons.prems Inr Some by simp
      from Cons.IH [OF this] obtain ps where
        ps: "out = (acc @ [p]) @ ps" "map row ps = filter (accepted lib) rows"
            "\<forall>p\<in>set ps. StartDate p = parseDateSafe lib (raw_StartDate (row p))
              \<and> CompletionDelayDays p = diff_days (ActualCompletionDate p) (StartDate p)"
        by blast
      show ?thesis using p ps by (intro exI [of _ "p # ps"]) simp
    qed
  qed
qed

text \<open>
  Claim C2, as stated, fails on a row whose start date is not a valid date: the row is
  not skipped, it yields a project with no start date and a delay of NaN.
\<close>

theorem cleaner_keeps_row_without_start_date_counterexample:
  "cleanAndPrepareData sample_lib [sample_row [] ''2021-03-02''] =
     Inr [\<lparr> row = sample_row [] ''2021-03-02'',
            ApprovedBudgetForContract = Num 100,
            ContractCost = Num 80,
            StartDate = None,
            ActualCompletionDate = 1614643200000,
            FundingYear = 2021,
            Region = ''NCR'',
            MainIsland = ''Luzon'',
            Contractor = ''ACME'',
            TypeOfWork = ''Dike'',
            CostSavings = Num 20,
            CompletionDelayDays = NaN \<rparr>]"
  by (simp add: sample_defs)

text \<open>
  Claim C2, amended. The rows that fail the validation of their fields are skipped
  silently: on every sequence of raw rows the cleaner does what it does on the sequence
  without them. No row is skipped for its dates: whenever the cleaner returns, it
  returns one project for each row that passes the validation of its fields, in the
  order of the input; the start date of the project is what the row's start date
  parses to, and a project whose start date is not a valid date has the delay NaN.
  (What the cleaner does on a completion date that is not valid is left out of this
  statement.)
\<close>

theorem cleaner_skips_on_field_checks_only:
  "cleanAndPrepareData lib rows = cleanAndPrepareData lib (filter (accepted lib) rows)
   \<and> (cleanAndPrepareData lib rows = Inr ps \<longrightarrow>
        map row ps = filter (accepted lib) rows
        \<and> (\<forall>p\<in>set ps. StartDate p = parseDateSafe lib (raw_StartDate (row p))
              \<and> (StartDate p = None \<longrightarrow> CompletionDelayDays p = NaN)))"
proof (intro conjI impI)
  show "cleanAndPrepareData lib rows = cleanAndPrepareData lib (filter (accepted lib) rows)"
    unfolding cleanAndPrepareData_def by (rule cleanLoop_filter)
next
  assume "cleanAndPrepareData lib rows = Inr ps"
  then have run: "cleanLoop lib rows [] = Inr ps" by (simp add: cleanAndPrepareData_def)
  from cleanLoop_returned [OF run]
  have ps: "map row ps = filter (accepted lib) rows"
    "\<forall>p\<in>set ps. StartDate p = parseDateSafe lib (raw_StartDate (row p))
              \<and> CompletionDelayDays p = diff_days (ActualCompletionDate p) (StartDate p)"
    by simp_all
  show "map row ps = filter (accepted lib) rows" by (rule ps(1))
  show "\<forall>p\<in>set ps. StartDate p = parseDateSafe lib (raw_StartDate (row p))
              \<and> (StartDate p = None \<longrightarrow> CompletionDelayDays p = NaN)"
    using ps(2) by (simp add: diff_days_def)
qed

theorem cleaner_skips_on_field_checks_only_witness:
  "(\<exists>ps. cleanAndPrepareData sample_lib
          [sample_row [] ''2021-03-02'',
           (sample_row ''2021-01-01'' []) \<lparr> raw_ContractCost := Some [] \<rparr>,
           sample_row ''2021-01-01'' ''2021-03-02''] = Inr ps
        \<and> map row ps = [sample_row [] ''2021-03-02'', sample_row ''2021-01-01'' ''2021-03-02'']
        \<and> map StartDate ps = [None, Some 1609459200000]
        \<and> map CompletionDelayDays ps = [NaN, Num 60])
   \<and> cleanAndPrepareData sample_lib
          [sample_row [] ''2021-03-02'',
           (sample_row ''2021-01-01'' []) \<lparr> raw_ContractCost := Some [] \<rparr>,
           sample_row ''2021-01-01'' ''2021-03-02'']
       = cleanAndPrepareData sample_lib
          [sample_row [] ''2021-03-02'', sample_row ''2021-01-01'' ''2021-03-02'']"
  using cleaner_skips_on_field_checks_only [of sample_lib
          "[sample_row [] ''2021-03-02'',
            (sample_row ''2021-01-01'' []) \<lparr> raw_ContractCost := Some [] \<rparr>,
            sample_row ''2021-01-01'' ''2021-03-02'']"]
  by (simp add: sample_defs)

section \<open>average\<close>

lemma fold_average_step:
  "fold average_step xs (s, n) =
     (fold (\<lambda>b a. js_add a b) (filter (\<lambda>x. \<not> isNaN x) xs) s,
      n + length (filter (\<lambda>x. \<not> isNaN x) xs))"
  by (induction xs arbitrary: s n) (auto simp: average_step_def)

lemma average_eq:
  "average xs =
     (if filter (\<lambda>x. \<not> isNaN x) xs = [] then Num 0
      else js_div (js_sum (filter (\<lambda>x. \<not> isNaN x) xs))
             (Num (real (length (filter (\<lambda>x. \<not> isNaN x) xs)))))"
  by (auto simp: average_def fold_average_step js_sum_def)

lemma filter_valid_finite:
  "\<forall>x\<in>set xs. x \<noteq> PosInf \<and> x \<noteq> NegInf \<Longrightarrow>
     filter (\<lambda>x. \<not> isNaN x) xs = map Num (finite_entries xs)"
proof (induction xs)
  case Nil
  then show ?case by simp
next
  case (Cons x xs)
  then show ?case by (cases x) simp_all
qed

lemma average_finite:
  assumes "\<forall>x\<in>set xs. x \<noteq> PosInf \<and> x \<noteq> NegInf"
  shows "average xs =
     (if finite_entries xs = [] then Num 0
      else Num (sum_list (finite_entries xs) / real (length (finite_entries xs))))"
  by (simp add: average_eq filter_valid_finite [OF assms] js_sum_Num)

text \<open>
  \<^verbatim>\<open>average\<close> of the revised copy returns 0 on an empty input and on an input whose
  entries are all NaN; otherwise it is the sum of the entries that are not NaN divided
  by their number, so an invalid entry counts neither in the sum nor in the divisor.
  When no entry is an infinity this is the arithmetic mean of the finite entries.
\<close>

lemma average_skips_invalid:
  "average [] = Num 0
   \<and> ((\<forall>x\<in>set xs. isNaN x) \<longrightarrow> average xs = Num 0)
   \<and> (\<not> (\<forall>x\<in>set xs. isNaN x) \<longrightarrow>
        average xs = js_div (js_sum (filter (\<lambda>x. \<not> isNaN x) xs))
                       (Num (real (length (filter (\<lambda>x. \<not> isNaN x) xs)))))
   \<and> ((\<forall>x\<in>set xs. x \<noteq> PosInf \<and> x \<noteq> NegInf) \<and> finite_entries xs \<noteq> [] \<longrightarrow>
        average xs = Num (sum_list (finite_entries xs) / real (length (finite_entries xs))))"
proof (intro conjI impI)
  show "average [] = Num 0" by (simp add: average_def)
next
  assume "\<forall>x\<in>set xs. isNaN x"
  then have "filter (\<lambda>x. \<not> isNaN x) xs = []" by (simp add: filter_empty_conv)
  then show "average xs = Num 0" by (simp add: average_eq)
next
  assume "\<not> (\<forall>x\<in>set xs. isNaN x)"
  then have "filter (\<lambda>x. \<not> isNaN x) xs \<noteq> []" by (simp add: filter_empty_conv)
  then show "average xs = js_div (js_sum (filter (\<lambda>x. \<not> isNaN x) xs))
                       (Num (real (length (filter (\<lambda>x. \<not> isNaN x) xs))))"
    by (simp add: average_eq)
next
  assume "(\<forall>x\<in>set xs. x \<noteq> PosInf \<and> x \<noteq> NegInf) \<and> finite_entries xs \<noteq> []"
  then show "average xs = Num (sum_list (finite_entries xs) / real (length (finite_entries xs)))"
    by (simp add: average_finite)
qed

text \<open>\<^verbatim>\<open>average\<close> of \<^verbatim>\<open>main.js\<close>: one NaN entry makes the sum, and the average, NaN.\<close>

lemma fold_add_NaN: "fold (\<lambda>b a. js_add a b) xs NaN = NaN"
  by (induction xs) simp_all

lemma js_add_NaN_right: "js_add a NaN = NaN"
  by (cases a) simp_all

lemma fold_add_with_NaN:
  "\<exists>x\<in>set xs. isNaN x \<Longrightarrow> fold (\<lambda>b a. js_add a b) xs s = NaN"
proof (induction xs arbitrary: s)
  case Nil
  then show ?case by simp
next
  case (Cons x xs)
  show ?case
  proof (cases "isNaN x")
    case True
    then have "x = NaN" by (cases x) simp_all
    then show ?thesis by (simp add: js_add_NaN_right fold_add_NaN)
  next
    case False
    then have "\<exists>x\<in>set xs. isNaN x" using Cons.prems by simp
    from Cons.IH [OF this] show ?thesis by simp
  qed
qed

lemma average_main_NaN:
  assumes "\<exists>x\<in>set xs. isNaN x"
  shows "average_main xs = NaN"
proof -
  have "xs \<noteq> []" using assms by auto
  moreover have "js_sum xs = NaN" unfolding js_sum_def by (rule fold_add_with_NaN [OF assms])
  ultimately show ?thesis by (simp add: average_main_def)
qed

lemma average_main_valid:
  assumes "\<forall>x\<in>set xs. \<not> isNaN x"
  shows "average_main xs = average xs"
proof -
  have "filter (\<lambda>x. \<not> isNaN x) xs = xs" using assms by (simp add: filter_id_conv)
  then show ?thesis by (simp add: average_eq average_main_def)
qed

text \<open>
  Claim C8, as stated, fails on \<^verbatim>\<open>average\<close> of \<^verbatim>\<open>main.js\<close>, which divides the sum of all
  entries by their number: with one invalid entry beside the entry 10 the result is
  NaN and not 10, and on an input whose entries are all invalid it is NaN and not 0.
\<close>

theorem average_main_counts_invalid_counterexample:
  "average_main [NaN, Num 10] = NaN \<and> average_main [NaN, NaN] = NaN"
  by (simp add: average_main_def js_sum_def)

text \<open>
  Claim C8, amended. In both copies \<^verbatim>\<open>average\<close> returns 0 on an empty input. The revised
  copy (\<^verbatim>\<open>part_000\<close>) returns 0 on an input whose entries are all invalid, and otherwise
  the mean of the entries that are valid numbers only: the invalid entries count
  neither in the sum nor in the divisor; when no entry is an infinity this is the
  arithmetic mean of the finite entries. The earlier copy (\<^verbatim>\<open>main.js\<close>) skips nothing: it
  returns what the revised copy returns when every entry is a valid number, and NaN as
  soon as one entry is invalid.
\<close>

theorem average_in_both_copies:
  "average [] = Num 0 \<and> average_main [] = Num 0
   \<and> ((\<forall>x\<in>set xs. isNaN x) \<longrightarrow> average xs = Num 0)
   \<and> (\<not> (\<forall>x\<in>set xs. isNaN x) \<longrightarrow>
        average xs = js_div (js_sum (filter (\<lambda>x. \<not> isNaN x) xs))
                       (Num (real (length (filter (\<lambda>x. \<not> isNaN x) xs)))))
   \<and> ((\<forall>x\<in>set xs. x \<noteq> PosInf \<and> x \<noteq> NegInf) \<and> finite_entries xs \<noteq> [] \<longrightarrow>
        average xs = Num (sum_list (finite_entries xs) / real (length (finite_entries xs))))
   \<and> ((\<forall>x\<in>set xs. \<not> isNaN x) \<longrightarrow> average_main xs = average xs)
   \<and> ((\<exists>x\<in>set xs. isNaN x) \<longrightarrow> average_main xs = NaN)"
proof -
  have "average_main [] = Num 0" by (simp add: average_main_def)
  moreover have "(\<forall>x\<in>set xs. \<not> isNaN x) \<longrightarrow> average_main xs = average xs"
    using average_main_valid [of xs] by blast
  moreover have "(\<exists>x\<in>set xs. isNaN x) \<longrightarrow> average_main xs = NaN"
    using average_main_NaN [of xs] by blast
  ultimately show ?thesis using average_skips_invalid [of xs] by blast
qed

theorem average_in_both_copies_witness:
  "average [Num 1, NaN, Num 2, Num 3] = Num 2 \<and> average [NaN, NaN] = Num 0
   \<and> average_main [Num 1, NaN, Num 2, Num 3] = NaN
   \<and> average_main [Num 1, Num 2, Num 3] = Num 2 \<and> average [Num 1, Num 2, Num 3] = Num 2"
  using average_in_both_copies [of "[Num 1, NaN, Num 2, Num 3]"]
        average_in_both_copies [of "[NaN, NaN]"]
        average_in_both_copies [of "[Num 1, Num 2, Num 3]"]
  by (simp add: js_sum_def)

section \<open>median\<close>

lemma insertBy_sub: "insertBy (\<lambda>a b. js_sub a b) (Num x) (map Num ys) = map Num (insort x ys)"
  by (induction ys) (auto simp: js_gt_def js_sub_def)

lemma js_sort_sub: "js_sort (\<lambda>a b. js_sub a b) (map Num xs) = map Num (sort xs)"
  by (induction xs) (auto simp: js_sort_def insertBy_sub sort_key_def)

lemma median_Num:
  assumes "xs \<noteq> []"
  shows "median (map Num xs) =
     Num (round2 (if odd (length xs) then sort xs ! (length xs div 2)
                  else (sort xs ! (length xs div 2 - 1) + sort xs ! (length xs div 2)) / 2))"
proof -
  let ?n = "length xs"
  have pos: "0 < ?n" using assms by simp
  have mid: "?n div 2 < length (sort xs)" using pos by simp
  have mid1: "?n div 2 - 1 < length (sort xs)" using pos by (simp, arith)
  show ?thesis
  proof (cases "odd ?n")
    case True
    then have "?n mod 2 \<noteq> 0" by (simp add: odd_iff_mod_2_eq_one)
    then show ?thesis using True assms mid
      by (simp add: median_def js_sort_sub Let_def Number_toFixed2
               del: toFixed2.simps Number_of.simps)
  next
    case False
    then have "?n mod 2 = 0" by presburger
    then show ?thesis using False assms mid mid1
      by (simp add: median_def js_sort_sub Let_def Number_toFixed2 nth_map
               del: toFixed2.simps Number_of.simps)
  qed
qed

text \<open>
  Claim C9. \<^verbatim>\<open>median\<close> returns 0 on the empty array; on a non-empty array of finite
  numbers it returns, rounded to two decimals, the middle element of the sorted values
  when their number is odd and the mean of the two central elements when it is even.
  In particular median([5]) = 5 and median([1,2,3,4]) = 2.5.
\<close>

theorem median_middle_of_sorted:
  "median [] = Num 0
   \<and> (xs \<noteq> [] \<and> odd (length xs) \<longrightarrow>
        median (map Num xs) = Num (round2 (sort xs ! (length xs div 2))))
   \<and> (xs \<noteq> [] \<and> even (length xs) \<longrightarrow>
        median (map Num xs) =
          Num (round2 ((sort xs ! (length xs div 2 - 1) + sort xs ! (length xs div 2)) / 2)))
   \<and> median [Num 5] = Num 5
   \<and> median [Num 1, Num 2, Num 3, Num 4] = Num 2.5"
proof (intro conjI impI)
  show "median [] = Num 0" by (simp add: median_def)
next
  assume "xs \<noteq> [] \<and> odd (length xs)"
  then show "median (map Num xs) = Num (round2 (sort xs ! (length xs div 2)))"
    by (simp add: median_Num)
next
  assume "xs \<noteq> [] \<and> even (length xs)"
  then show "median (map Num xs) =
      Num (round2 ((sort xs ! (length xs div 2 - 1) + sort xs ! (length xs div 2)) / 2))"
    by (simp add: median_Num)
next
  show "median [Num 5] = Num 5"
    by (simp add: median_def js_sort_def js_gt_def js_sub_def hundredths_def)
next
  show "median [Num 1, Num 2, Num 3, Num 4] = Num 2.5"
    by (simp add: median_def js_sort_def js_gt_def js_sub_def hundredths_def)
qed

theorem median_middle_of_sorted_witness:
  "median (map Num [7, 1, 3]) = Num 3 \<and> median (map Num [4, 1, 3, 2]) = Num 2.5"
  using median_middle_of_sorted [of "[7, 1, 3]"] median_middle_of_sorted [of "[4, 1, 3, 2]"]
  by (simp add: round2_def hundredths_def)

section \<open>Sorting, objects and grouping: basic facts\<close>

subsection \<open>\<open>js_sort\<close>\<close>

lemma mset_insertBy: "mset (insertBy cmp x xs) = add_mset x (mset xs)"
  by (induction xs) auto

lemma mset_js_sort: "mset (js_sort cmp xs) = mset xs"
  by (induction xs) (auto simp: js_sort_def mset_insertBy)

lemma set_js_sort: "set (js_sort cmp xs) = set xs"
  using mset_js_sort [of cmp xs] by (metis set_mset_mset)

lemma length_js_sort: "length (js_sort cmp xs) = length xs"
  using mset_js_sort [of cmp xs] by (metis size_mset)

subsection \<open>Objects\<close>

lemma set_object_values: "set (object_values m) = snd ` set m"
  by (auto simp: object_values_def)

lemma mset_object_values: "mset (object_values m) = mset (map snd m)"
proof -
  let ?P = "\<lambda>kv::string \<times> 'a. is_array_index (fst kv)"
  have "image_mset snd (filter_mset ?P (mset m)) + image_mset snd (filter_mset (\<lambda>kv. \<not> ?P kv) (mset m))
      = image_mset snd (mset m)"
    by (metis image_mset_union multiset_partition)
  then show ?thesis by (simp add: object_values_def)
qed

lemma length_object_values: "length (object_values m) = length m"
  using mset_object_values [of m] by (metis size_mset length_map)

lemma bar_not_digit: "\<not> is_digit CHR ''|''"
  by (simp add: is_digit_def)

lemma bar_not_index: "CHR ''|'' \<in> set k \<Longrightarrow> \<not> is_array_index k"
  using bar_not_digit unfolding is_array_index_def list_all_iff by blast

lemma object_values_plain:
  assumes "\<forall>kv\<in>set m. \<not> is_array_index (fst kv)"
  shows "object_values m = map snd m"
proof -
  have "filter (\<lambda>kv. is_array_index (fst kv)) m = []" using assms by (simp add: filter_empty_conv)
  moreover have "filter (\<lambda>kv. \<not> is_array_index (fst kv)) m = m" using assms by (simp add: filter_id_conv)
  ultimately show ?thesis by (simp add: object_values_def)
qed

subsection \<open>Grouping\<close>

lemma map_entry_new: "map_of m k = None \<Longrightarrow> AList.map_entry k f (m @ [(k, i)]) = m @ [(k, f i)]"
  by (induction m) (auto split: if_splits)

lemma map_entry_old:
  "map_of m k = Some g \<Longrightarrow>
     \<exists>m1 m2. m = m1 @ (k, g) # m2 \<and> AList.map_entry k f m = m1 @ (k, f g) # m2"
proof (induction m)
  case Nil
  then show ?case by simp
next
  case (Cons p m)
  show ?case
  proof (cases "fst p = k")
    case True
    with Cons.prems have "p = (k, g)" by (cases p) simp
    then show ?thesis by (intro exI [of _ "[]"] exI [of _ m]) simp
  next
    case False
    with Cons.prems have "map_of m k = Some g" by (cases p) simp
    from Cons.IH [OF this] obtain m1 m2 where
      "m = m1 @ (k, g) # m2" "AList.map_entry k f m = m1 @ (k, f g) # m2" by blast
    then show ?thesis using False by (intro exI [of _ "p # m1"] exI [of _ m2]) simp
  qed
qed

lemma upsert_cases:
  obtains (new) "map_of m k = None" "upsert k i f m = m @ [(k, f i)]"
  | (old) m1 g m2 where "m = m1 @ (k, g) # m2" "upsert k i f m = m1 @ (k, f g) # m2"
proof (cases "map_of m k")
  case None
  then show ?thesis using new by (simp add: upsert_def map_entry_new)
next
  case (Some g)
  from map_entry_old [OF Some, of f] obtain m1 m2 where
    "m = m1 @ (k, g) # m2" "AList.map_entry k f m = m1 @ (k, f g) # m2" by blast
  then show ?thesis using old Some by (simp add: upsert_def)
qed

text \<open>An invariant of the groups that the initial group after its first update
  has and that an update preserves holds of every group.\<close>

lemma upsert_invariant:
  assumes "\<forall>kv\<in>set m. P (snd kv)" "P (f i)" "\<And>g. P g \<Longrightarrow> P (f g)"
  shows "\<forall>kv\<in>set (upsert k i f m). P (snd kv)"
  by (cases rule: upsert_cases [of m k i f]) (use assms in auto)

lemma upsert_keys:
  "fst ` set (upsert k i f m) = insert k (fst ` set m)"
  by (cases rule: upsert_cases [of m k i f]) auto

text \<open>A quantity summed over the groups grows by the contribution of the update.\<close>

lemma upsert_sum:
  fixes w :: "'g \<Rightarrow> real"
  assumes "w (f i) = w i + d" "w i = 0" "\<And>g. w (f g) = w g + d"
  shows "(\<Sum>kv\<leftarrow>upsert k i f m. w (snd kv)) = (\<Sum>kv\<leftarrow>m. w (snd kv)) + d"
  by (cases rule: upsert_cases [of m k i f]) (use assms in auto)

subsection \<open>Grouping loops\<close>

lemma fold_upsert_invariant:
  assumes "\<forall>kv\<in>set m. P (snd kv)"
    and "\<And>x. x \<in> set xs \<Longrightarrow> P (f x (i x))"
    and "\<And>x g. x \<in> set xs \<Longrightarrow> P g \<Longrightarrow> P (f x g)"
  shows "\<forall>kv\<in>set (fold (\<lambda>x. upsert (k x) (i x) (f x)) xs m). P (snd kv)"
  using assms
proof (induction xs arbitrary: m)
  case Nil
  then show ?case by simp
next
  case (Cons x xs)
  have "\<forall>kv\<in>set (upsert (k x) (i x) (f x) m). P (snd kv)"
    by (rule upsert_invariant) (use Cons.prems in auto)
  then show ?case using Cons.prems by (simp add: Cons.IH)
qed

lemma fold_upsert_keys:
  "fst ` set (fold (\<lambda>x. upsert (k x) (i x) (f x)) xs m) = fst ` set m \<union> k ` set xs"
  by (induction xs arbitrary: m) (auto simp: upsert_keys)

lemma fold_upsert_sum:
  fixes w :: "'g \<Rightarrow> real"
  assumes "\<And>x. x \<in> set xs \<Longrightarrow> w (i x) = 0"
    and "\<And>x g. x \<in> set xs \<Longrightarrow> w (f x g) = w g + d x"
  shows "(\<Sum>kv\<leftarrow>fold (\<lambda>x. upsert (k x) (i x) (f x)) xs m. w (snd kv))
           = (\<Sum>kv\<leftarrow>m. w (snd kv)) + (\<Sum>x\<leftarrow>xs. d x)"
  using assms
proof (induction xs arbitrary: m)
  case Nil
  then show ?case by simp
next
  case (Cons x xs)
  have "(\<Sum>kv\<leftarrow>upsert (k x) (i x) (f x) m. w (snd kv)) = (\<Sum>kv\<leftarrow>m. w (snd kv)) + d x"
    by (rule upsert_sum) (use Cons.prems in auto)
  then show ?case using Cons.prems by (simp add: Cons.IH)
qed

section \<open>Regional efficiency report: properties\<close>

subsection \<open>The groups\<close>

lemma regionMap_of_fold:
  "regionMap_of data =
     fold (\<lambda>r. upsert (region_key r)
                 \<lparr> g_Region = Region r, g_MainIsland = MainIsland r, budgets = [], savings = [], delays = [] \<rparr>
                 (\<lambda>g. g\<lparr> budgets := budgets g @ [ApprovedBudgetForContract r],
                          savings := savings g @ [CostSavings r],
                          delays := delays g @ [CompletionDelayDays r] \<rparr>)) data []"
proof -
  have "region_step = (\<lambda>r. upsert (region_key r)
                 \<lparr> g_Region = Region r, g_MainIsland = MainIsland r, budgets = [], savings = [], delays = [] \<rparr>
                 (\<lambda>g. g\<lparr> budgets := budgets g @ [ApprovedBudgetForContract r],
                          savings := savings g @ [CostSavings r],
                          delays := delays g @ [CompletionDelayDays r] \<rparr>))"
    by (intro ext) (simp add: region_step_def)
  then show ?thesis by (simp add: regionMap_of_def)
qed

lemma region_groups_nonempty:
  "\<forall>kv\<in>set (regionMap_of data). budgets (snd kv) \<noteq> [] \<and> savings (snd kv) \<noteq> [] \<and> delays (snd kv) \<noteq> []"
  unfolding regionMap_of_fold by (rule fold_upsert_invariant) auto

lemma region_keys_plain: "\<forall>kv\<in>set (regionMap_of data). \<not> is_array_index (fst kv)"
proof -
  have "fst ` set (regionMap_of data) = region_key ` set data"
    unfolding regionMap_of_fold by (simp add: fold_upsert_keys)
  moreover have "\<And>r. \<not> is_array_index (region_key r)"
    by (rule bar_not_index) (simp add: region_key_def)
  ultimately show ?thesis by (metis imageE imageI)
qed

lemma region_values: "object_values (regionMap_of data) = map snd (regionMap_of data)"
  by (rule object_values_plain) (rule region_keys_plain)

subsection \<open>The score before normalization\<close>

lemma region_result_efficiency:
  "\<exists>e. EfficiencyScore (region_result grp) = Num e \<and> 0 \<le> e"
proof -
  let ?eff = "js_div (median (savings grp)) (average (delays grp))"
  have eq: "EfficiencyScore (region_result grp) =
      (if \<not> isFinite ?eff \<or> js_lt ?eff (Num 0) then Num 0 else ?eff)"
    by (simp add: region_result_def Let_def)
  show ?thesis unfolding eq by (cases ?eff) auto
qed

subsection \<open>Normalization\<close>

lemma fold_min_Num: "fold (\<lambda>x m. Math_min m x) (map Num xs) (Num a) = Num (fold min xs a)"
  by (induction xs arbitrary: a) (auto simp: Math_min_def min_def)

lemma fold_max_Num: "fold (\<lambda>x m. Math_max m x) (map Num xs) (Num a) = Num (fold max xs a)"
  by (induction xs arbitrary: a) (auto simp: Math_max_def max_def)

lemma Math_min_list_Num: "xs \<noteq> [] \<Longrightarrow> Math_min_list (map Num xs) = Num (Min (set xs))"
proof (cases xs)
  case Nil
  then show "xs \<noteq> [] \<Longrightarrow> ?thesis" by simp
next
  case (Cons a as)
  have start: "Math_min PosInf (Num a) = Num a" by (simp add: Math_min_def)
  have "Math_min_list (map Num xs) = fold (\<lambda>x m. Math_min m x) (map Num as) (Math_min PosInf (Num a))"
    by (simp add: Cons Math_min_list_def)
  also have "\<dots> = Num (fold min as a)" unfolding start by (rule fold_min_Num)
  also have "fold min as a = Min (set xs)" unfolding Cons by (rule Min.set_eq_fold [symmetric])
  finally show ?thesis .
qed

lemma Math_max_list_Num: "xs \<noteq> [] \<Longrightarrow> Math_max_list (map Num xs) = Num (Max (set xs))"
proof (cases xs)
  case Nil
  then show "xs \<noteq> [] \<Longrightarrow> ?thesis" by simp
next
  case (Cons a as)
  have start: "Math_max NegInf (Num a) = Num a" by (simp add: Math_max_def)
  have "Math_max_list (map Num xs) = fold (\<lambda>x m. Math_max m x) (map Num as) (Math_max NegInf (Num a))"
    by (simp add: Cons Math_max_list_def)
  also have "\<dots> = Num (fold max as a)" unfolding start by (rule fold_max_Num)
  also have "fold max as a = Max (set xs)" unfolding Cons by (rule Max.set_eq_fold [symmetric])
  finally show ?thesis .
qed

lemma round2_range: assumes "0 \<le> t" "t \<le> 100" shows "0 \<le> round2 t \<and> round2 t \<le> 100"
proof -
  have "\<bar>t\<bar> * 100 + 1 / 2 < 10001" using assms by simp
  then have "\<lfloor>\<bar>t\<bar> * 100 + 1 / 2\<rfloor> \<le> 10000" by (simp add: floor_le_iff)
  then have "hundredths t \<le> 10000" unfolding hundredths_def by linarith
  then have "real (hundredths t) \<le> 10000" by (metis of_nat_le_iff of_nat_numeral)
  then show ?thesis using assms by (simp add: round2_def)
qed

lemma normalize_range:
  assumes "x \<in> set xs"
  shows "\<exists>v. normalize_score (Num (Min (set xs))) (Num (Max (set xs))) (Num x) = Num v \<and> 0 \<le> v \<and> v \<le> 100"
proof (cases "Max (set xs) = Min (set xs)")
  case True
  then show ?thesis by (simp add: normalize_score_def js_neq_def hundredths_def)
next
  case False
  let ?mn = "Min (set xs)" and ?mx = "Max (set xs)"
  have lo: "?mn \<le> x" and hi: "x \<le> ?mx" using assms by simp_all
  then have pos: "0 < ?mx - ?mn" using False by linarith
  define q where "q = (x - ?mn) / (?mx - ?mn)"
  have q0: "0 \<le> q" using lo pos by (simp add: q_def)
  have q1: "q \<le> 1" using hi pos by (simp add: q_def)
  have t0: "0 \<le> q * 100" using q0 by simp
  have t1: "q * 100 \<le> 100" using q1 by simp
  have "normalize_score (Num ?mn) (Num ?mx) (Num x) = Num (round2 (q * 100))"
    using False pos unfolding q_def
    by (simp add: normalize_score_def js_neq_def js_sub_def Number_toFixed2 del: toFixed2.simps Number_of.simps)
  then show ?thesis using round2_range [OF t0 t1] by simp
qed

lemma normalize_equal: "normalize_score (Num m) (Num m) e = Num 0"
  by (simp add: normalize_score_def js_neq_def hundredths_def)

subsection \<open>The scores of the report\<close>

lemma Num_list:
  "\<forall>y\<in>set ys. \<exists>e. y = Num e \<and> 0 \<le> e \<Longrightarrow> \<exists>xs. ys = map Num xs \<and> (\<forall>x\<in>set xs. 0 \<le> x)"
proof (induction ys)
  case Nil
  then show ?case by simp
next
  case (Cons y ys)
  then obtain e xs where "y = Num e" "0 \<le> e" "ys = map Num xs" "\<forall>x\<in>set xs. 0 \<le> x"
    by auto
  then show ?case by (intro exI [of _ "e # xs"]) simp
qed

lemma raw_scores:
  "\<exists>xs. map EfficiencyScore (region_results data) = map Num xs \<and> (\<forall>x\<in>set xs. 0 \<le> x)"
  by (rule Num_list) (auto simp: region_results_def region_result_efficiency)

lemma report1_rows:
  assumes "r \<in> set (generateReport1 data)"
  shows "\<exists>r0\<in>set (region_results data).
           r = r0\<lparr> EfficiencyScore :=
                  normalize_score (Math_min_list (map EfficiencyScore (region_results data)))
                                  (Math_max_list (map EfficiencyScore (region_results data)))
                                  (EfficiencyScore r0) \<rparr>"
  using assms by (auto simp: generateReport1_def Let_def set_js_sort)

lemma report1_score:
  assumes "r \<in> set (generateReport1 data)"
  obtains xs x where "map EfficiencyScore (region_results data) = map Num xs" "x \<in> set xs"
    "EfficiencyScore r = normalize_score (Num (Min (set xs))) (Num (Max (set xs))) (Num x)"
proof -
  from report1_rows [OF assms] obtain r0 where r0: "r0 \<in> set (region_results data)"
    and r: "EfficiencyScore r =
        normalize_score (Math_min_list (map EfficiencyScore (region_results data)))
                        (Math_max_list (map EfficiencyScore (region_results data)))
                        (EfficiencyScore r0)"
    by auto
  from raw_scores obtain xs where xs: "map EfficiencyScore (region_results data) = map Num xs"
    by blast
  from r0 have "EfficiencyScore r0 \<in> set (map EfficiencyScore (region_results data))" by simp
  then obtain x where x: "x \<in> set xs" "EfficiencyScore r0 = Num x" unfolding xs by auto
  then have ne: "xs \<noteq> []" by auto
  show ?thesis
    using that [OF xs x(1)] r x(2) by (simp add: xs Math_min_list_Num [OF ne] Math_max_list_Num [OF ne])
qed


lemmas report1_defs =
  generateReport1_def region_results_def regionMap_of_def region_step_def region_key_def upsert_def
  object_values_def is_array_index_def is_digit_def region_result_def median_def average_def
  average_step_def js_sort_def js_gt_def js_sub_def js_sum_def formatNumber_def hundredths_def
  normalize_score_def js_neq_def Math_min_list_def Math_max_list_def Math_min_def Math_max_def
  sample_data_def sample_project_def Let_def

subsection \<open>The budget totals\<close>

lemma fold_add_val:
  "\<forall>x\<in>set xs. isFinite x \<Longrightarrow> fold (\<lambda>b a. js_add a b) xs (Num s) = Num (s + (\<Sum>x\<leftarrow>xs. num_val x))"
proof (induction xs arbitrary: s)
  case Nil
  then show ?case by simp
next
  case (Cons x xs)
  then obtain r where "x = Num r" by (cases x) auto
  then show ?case using Cons by (simp add: add.assoc)
qed

lemma js_sum_val: "\<forall>x\<in>set xs. isFinite x \<Longrightarrow> js_sum xs = Num (\<Sum>x\<leftarrow>xs. num_val x)"
  by (simp add: js_sum_def fold_add_val)

lemma sum_val_perm: "mset xs = mset ys \<Longrightarrow> (\<Sum>x\<leftarrow>xs. num_val x) = (\<Sum>x\<leftarrow>ys. num_val x)"
  by (metis mset_map sum_mset_sum_list)

lemma round2_sum_close:
  "\<bar>(\<Sum>x\<leftarrow>xs. round2 (w x)) - (\<Sum>x\<leftarrow>xs. w x)\<bar> \<le> real (length xs) / 200"
proof (induction xs)
  case Nil
  then show ?case by simp
next
  case (Cons x xs)
  have one: "\<bar>round2 (w x) - w x\<bar> \<le> 1 / 200" by (rule round2_close)
  have split: "real (length (x # xs)) / 200 = 1 / 200 + real (length xs) / 200"
    by (simp add: add_divide_distrib)
  have "\<bar>(\<Sum>x\<leftarrow>x # xs. round2 (w x)) - (\<Sum>x\<leftarrow>x # xs. w x)\<bar>
      \<le> \<bar>round2 (w x) - w x\<bar> + \<bar>(\<Sum>x\<leftarrow>xs. round2 (w x)) - (\<Sum>x\<leftarrow>xs. w x)\<bar>"
    by simp
  also have "\<dots> \<le> 1 / 200 + real (length xs) / 200" using one Cons by linarith
  finally show ?case unfolding split .
qed

lemma region_budgets_finite:
  assumes "\<forall>p\<in>set data. isFinite (ApprovedBudgetForContract p)"
  shows "\<forall>kv\<in>set (regionMap_of data). \<forall>b\<in>set (budgets (snd kv)). isFinite b"
  unfolding regionMap_of_fold by (rule fold_upsert_invariant) (use assms in auto)

lemma region_budgets_total:
  "(\<Sum>kv\<leftarrow>regionMap_of data. \<Sum>b\<leftarrow>budgets (snd kv). num_val b)
     = (\<Sum>p\<leftarrow>data. num_val (ApprovedBudgetForContract p))"
  using fold_upsert_sum [where w = "\<lambda>g. \<Sum>b\<leftarrow>budgets g. num_val b"
        and d = "\<lambda>p. num_val (ApprovedBudgetForContract p)" and xs = data and m = "[]"
        and k = region_key
        and i = "\<lambda>r. \<lparr> g_Region = Region r, g_MainIsland = MainIsland r, budgets = [], savings = [], delays = [] \<rparr>"
        and f = "\<lambda>r g. g\<lparr> budgets := budgets g @ [ApprovedBudgetForContract r],
                          savings := savings g @ [CostSavings r],
                          delays := delays g @ [CompletionDelayDays r] \<rparr>"]
  by (simp add: regionMap_of_fold)

lemma region_total_shown:
  assumes "\<forall>b\<in>set (budgets g). isFinite b"
  shows "Number_of (TotalApprovedBudget (region_result g)) = Num (round2 (\<Sum>b\<leftarrow>budgets g. num_val b))"
proof -
  have "TotalApprovedBudget (region_result g) = formatNumber (js_sum (budgets g))"
    by (simp add: region_result_def Let_def)
  then show ?thesis
    by (simp add: js_sum_val [OF assms] formatNumber_def Number_toFixed2 del: toFixed2.simps Number_of.simps)
qed

text \<open>
  Claim C6. When the approved budgets are finite, the sum of the TotalApprovedBudget
  values shown in the rows of the regional report differs from the sum of the approved
  budgets of all projects by at most half a hundredth for each row: the rounding of the
  two-decimal display.
\<close>

theorem budget_totals_roundtrip:
  assumes "\<forall>p\<in>set data. isFinite (ApprovedBudgetForContract p)"
  shows "js_le (Math_abs (js_sub (js_sum (map (\<lambda>r. Number_of (TotalApprovedBudget r)) (generateReport1 data)))
                                  (js_sum (map ApprovedBudgetForContract data))))
               (Num (real (length (generateReport1 data)) / 200))"
proof -
  let ?m = "regionMap_of data"
  let ?S = "\<lambda>kv::string \<times> RegionGroup. \<Sum>b\<leftarrow>budgets (snd kv). num_val b"
  let ?shown = "\<lambda>r. Number_of (TotalApprovedBudget r)"
  define upd where "upd = (\<lambda>r::RegionRow. r\<lparr> EfficiencyScore :=
        normalize_score (Math_min_list (map EfficiencyScore (region_results data)))
                        (Math_max_list (map EfficiencyScore (region_results data)))
                        (EfficiencyScore r) \<rparr>)"
  have rep: "generateReport1 data =
      js_sort (\<lambda>a b. js_sub (EfficiencyScore b) (EfficiencyScore a)) (map upd (region_results data))"
    by (simp add: generateReport1_def Let_def upd_def)
  have res: "region_results data = map (\<lambda>kv. region_result (snd kv)) ?m"
    by (simp add: region_results_def region_values)
  have shown: "map ?shown (map upd (region_results data)) = map (\<lambda>kv. Num (round2 (?S kv))) ?m"
    using region_budgets_finite [OF assms]
    by (simp add: res upd_def region_total_shown del: Number_of.simps)
  have "mset (generateReport1 data) = mset (map upd (region_results data))"
    unfolding rep by (rule mset_js_sort)
  then have "mset (map ?shown (generateReport1 data)) = mset (map ?shown (map upd (region_results data)))"
    by (metis mset_map)
  then have perm: "mset (map ?shown (generateReport1 data)) = mset (map (\<lambda>kv. Num (round2 (?S kv))) ?m)"
    unfolding shown .
  have fin: "\<forall>x\<in>set (map ?shown (generateReport1 data)). isFinite x"
    using perm by (metis (no_types, lifting) ex_map_conv isFinite.simps(1) mset_eq_setD)
  have len: "length (generateReport1 data) = length ?m"
    by (simp add: rep length_js_sort res)
  have "js_sum (map ?shown (generateReport1 data)) = Num (\<Sum>x\<leftarrow>map ?shown (generateReport1 data). num_val x)"
    by (rule js_sum_val [OF fin])
  also have "(\<Sum>x\<leftarrow>map ?shown (generateReport1 data). num_val x)
      = (\<Sum>x\<leftarrow>map (\<lambda>kv. Num (round2 (?S kv))) ?m. num_val x)"
    by (rule sum_val_perm [OF perm])
  also have "\<dots> = (\<Sum>kv\<leftarrow>?m. round2 (?S kv))" by (simp add: comp_def)
  finally have lhs: "js_sum (map ?shown (generateReport1 data)) = Num (\<Sum>kv\<leftarrow>?m. round2 (?S kv))" .
  have "js_sum (map ApprovedBudgetForContract data) = Num (\<Sum>x\<leftarrow>map ApprovedBudgetForContract data. num_val x)"
    by (rule js_sum_val) (use assms in auto)
  also have "(\<Sum>x\<leftarrow>map ApprovedBudgetForContract data. num_val x) = (\<Sum>kv\<leftarrow>?m. ?S kv)"
    by (simp add: region_budgets_total comp_def)
  finally have rhs: "js_sum (map ApprovedBudgetForContract data) = Num (\<Sum>kv\<leftarrow>?m. ?S kv)" .
  show ?thesis
    using round2_sum_close [of ?S ?m]
    by (simp add: lhs rhs len js_sub_def js_le_def)
qed

theorem budget_totals_roundtrip_witness:
  "js_le (Math_abs (js_sub (js_sum (map (\<lambda>r. Number_of (TotalApprovedBudget r)) (generateReport1 sample_data)))
                           (js_sum (map ApprovedBudgetForContract sample_data))))
         (Num (real (length (generateReport1 sample_data)) / 200))
   \<and> map TotalApprovedBudget (generateReport1 sample_data) = [Dec False 30000, Dec False 35000]
   \<and> js_sum (map ApprovedBudgetForContract sample_data) = Num 650"
proof -
  have fin: "\<forall>p\<in>set sample_data. isFinite (ApprovedBudgetForContract p)"
    by (simp add: sample_data_def sample_project_def)
  have shown: "map TotalApprovedBudget (generateReport1 sample_data) = [Dec False 30000, Dec False 35000]"
    by (simp add: report1_defs)
  have total: "js_sum (map ApprovedBudgetForContract sample_data) = Num 650"
    by (simp add: js_sum_def sample_data_def sample_project_def)
  show ?thesis using budget_totals_roundtrip [OF fin] shown total by blast
qed

section \<open>Cost-trend report: the groups\<close>

lemma typeMap_of_fold:
  "typeMap_of data =
     fold (\<lambda>r. upsert (type_key r)
                 \<lparr> t_FundingYear = FundingYear r, t_TypeOfWork = TypeOfWork r, t_savings = [] \<rparr>
                 (\<lambda>g. g\<lparr> t_savings := t_savings g @ [CostSavings r] \<rparr>)) data []"
proof -
  have "type_step = (\<lambda>r. upsert (type_key r)
                 \<lparr> t_FundingYear = FundingYear r, t_TypeOfWork = TypeOfWork r, t_savings = [] \<rparr>
                 (\<lambda>g. g\<lparr> t_savings := t_savings g @ [CostSavings r] \<rparr>))"
    by (intro ext) (simp add: type_step_def)
  then show ?thesis by (simp add: typeMap_of_def)
qed

lemma type_groups_nonempty: "\<forall>kv\<in>set (typeMap_of data). t_savings (snd kv) \<noteq> []"
  unfolding typeMap_of_fold by (rule fold_upsert_invariant) auto

lemma type_keys_plain: "\<forall>kv\<in>set (typeMap_of data). \<not> is_array_index (fst kv)"
proof -
  have "fst ` set (typeMap_of data) = type_key ` set data"
    unfolding typeMap_of_fold by (simp add: fold_upsert_keys)
  moreover have "\<And>r. \<not> is_array_index (type_key r)"
    by (rule bar_not_index) (simp add: type_key_def)
  ultimately show ?thesis by (metis imageE imageI)
qed

lemma type_values: "object_values (typeMap_of data) = map snd (typeMap_of data)"
  by (rule object_values_plain) (rule type_keys_plain)

section \<open>Contractor reliability report: properties\<close>

subsection \<open>The groups\<close>

lemma contractorLoop_invariant:
  assumes "contractorLoop data m = Inr m'"
    and "\<forall>kv\<in>set m. P (snd kv)"
    and "\<And>r. r \<in> set data \<Longrightarrow> Contractor r \<noteq> [] \<Longrightarrow>
           P (\<lparr> g_Contractor = Contractor r, projects = 1, c_delays = [CompletionDelayDays r],
                totalSavings = js_add (Num 0) (CostSavings r),
                totalCost = js_add (Num 0) (ContractCost r) \<rparr>)"
    and "\<And>r c. r \<in> set data \<Longrightarrow> P c \<Longrightarrow>
           P (c\<lparr> projects := projects c + 1,
                  c_delays := c_delays c @ [CompletionDelayDays r],
                  totalSavings := js_add (totalSavings c) (CostSavings r),
                  totalCost := js_add (totalCost c) (ContractCost r) \<rparr>)"
  shows "\<forall>kv\<in>set m'. P (snd kv)"
  using assms
proof (induction data arbitrary: m)
  case Nil
  then show ?case by simp
next
  case (Cons r data)
  show ?case
  proof (cases "Contractor r = []")
    case True
    with Cons.prems(1) have "contractorLoop data m = Inr m'" by simp
    then show ?thesis by (rule Cons.IH) (use Cons.prems in auto)
  next
    case False
    let ?f = "\<lambda>c. c\<lparr> projects := projects c + 1,
                  c_delays := c_delays c @ [CompletionDelayDays r],
                  totalSavings := js_add (totalSavings c) (CostSavings r),
                  totalCost := js_add (totalCost c) (ContractCost r) \<rparr>"
    let ?i = "\<lparr> g_Contractor = Contractor r, projects = 0, c_delays = [],
                 totalSavings = Num 0, totalCost = Num 0 \<rparr>"
    let ?m = "upsert (Contractor r) ?i ?f m"
    from Cons.prems(1) False have loop: "contractorLoop data ?m = Inr m'"
      by (simp add: Let_def split: if_splits)
    have "\<forall>kv\<in>set ?m. P (snd kv)"
    proof (rule upsert_invariant)
      show "\<forall>kv\<in>set m. P (snd kv)" by (rule Cons.prems(2))
      show "P (?f ?i)" using Cons.prems(3) [of r] False by simp
      show "\<And>g. P g \<Longrightarrow> P (?f g)" using Cons.prems(4) [of r] by simp
    qed
    with loop show ?thesis by (rule Cons.IH) (use Cons.prems in auto)
  qed
qed

lemma contractor_groups_nonempty:
  assumes "contractorLoop data [] = Inr m"
  shows "\<forall>kv\<in>set m. 1 \<le> projects (snd kv) \<and> c_delays (snd kv) \<noteq> []"
  by (rule contractorLoop_invariant [OF assms]) auto


subsection \<open>Sorting by a finite key, largest first\<close>

lemma set_insertBy: "set (insertBy cmp x xs) = insert x (set xs)"
  using mset_insertBy [of cmp x xs] by (metis set_mset_mset set_mset_add_mset_insert)

lemma insertBy_desc_sorted:
  assumes "isFinite (k x)" "\<forall>y\<in>set xs. isFinite (k y)"
    and "sorted_wrt (\<lambda>a b. num_val (k b) \<le> num_val (k a)) xs"
  shows "sorted_wrt (\<lambda>a b. num_val (k b) \<le> num_val (k a)) (insertBy (\<lambda>a b. js_sub (k b) (k a)) x xs)"
  using assms
proof (induction xs)
  case Nil
  then show ?case by simp
next
  case (Cons y ys)
  from Cons.prems obtain a b where ab: "k x = Num a" "k y = Num b"
    by (cases "k x"; cases "k y") auto
  show ?case
  proof (cases "a < b")
    case True
    then have "insertBy (\<lambda>a b. js_sub (k b) (k a)) x (y # ys) = y # insertBy (\<lambda>a b. js_sub (k b) (k a)) x ys"
      by (simp add: ab js_gt_def js_sub_def)
    moreover have "sorted_wrt (\<lambda>a b. num_val (k b) \<le> num_val (k a)) (insertBy (\<lambda>a b. js_sub (k b) (k a)) x ys)"
      using Cons by simp
    ultimately show ?thesis using Cons.prems True by (auto simp: set_insertBy ab)
  next
    case False
    then have "insertBy (\<lambda>a b. js_sub (k b) (k a)) x (y # ys) = x # y # ys"
      by (simp add: ab js_gt_def js_sub_def)
    then show ?thesis using Cons.prems False by (auto simp: ab)
  qed
qed

lemma js_sort_desc_sorted:
  "\<forall>y\<in>set xs. isFinite (k y) \<Longrightarrow>
     sorted_wrt (\<lambda>a b. num_val (k b) \<le> num_val (k a)) (js_sort (\<lambda>a b. js_sub (k b) (k a)) xs)"
proof (induction xs)
  case Nil
  then show ?case by (simp add: js_sort_def)
next
  case (Cons x xs)
  have "js_sort (\<lambda>a b. js_sub (k b) (k a)) (x # xs)
      = insertBy (\<lambda>a b. js_sub (k b) (k a)) x (js_sort (\<lambda>a b. js_sub (k b) (k a)) xs)"
    by (simp add: js_sort_def)
  then show ?case using Cons by (simp add: insertBy_desc_sorted set_js_sort)
qed

lemma hundredths_mono: "\<bar>a\<bar> \<le> \<bar>b\<bar> \<Longrightarrow> hundredths a \<le> hundredths b"
  unfolding hundredths_def by (intro nat_mono floor_mono) simp

lemma round2_mono: assumes "a \<le> b" shows "round2 a \<le> round2 b"
proof -
  consider "b < 0" | "a < 0" "0 \<le> b" | "0 \<le> a" by linarith
  then show ?thesis
  proof cases
    case 1
    then have "hundredths b \<le> hundredths a" using assms by (intro hundredths_mono) simp
    then have "real (hundredths b) \<le> real (hundredths a)" by simp
    then show ?thesis using 1 assms by (simp add: round2_def)
  next
    case 2
    then show ?thesis by (simp add: round2_def)
  next
    case 3
    then have "hundredths a \<le> hundredths b" using assms by (intro hundredths_mono) simp
    then have "real (hundredths a) \<le> real (hundredths b)" by simp
    then show ?thesis using 3 assms by (simp add: round2_def)
  qed
qed

subsection \<open>What a contractor group holds\<close>

lemma counted_skip:
  assumes "counted m seen" "Contractor r = []"
  shows "counted m (seen @ [r])"
  using assms unfolding counted_def by auto

lemma counted_upsert:
  assumes c: "counted m seen" and ne: "Contractor r \<noteq> []"
    and i: "g_Contractor i = Contractor r" "projects i = 0" "totalCost i = Num 0"
    and f: "\<And>g. g_Contractor (f g) = g_Contractor g" "\<And>g. projects (f g) = projects g + 1"
           "\<And>g. totalCost (f g) = js_add (totalCost g) (ContractCost r)"
  shows "counted (upsert (Contractor r) i f m) (seen @ [r])"
proof (cases rule: upsert_cases [of m "Contractor r" i f])
  case new
  then have notin: "Contractor r \<notin> fst ` set m" by (simp add: map_of_eq_None_iff)
  have "Contractor p \<noteq> Contractor r" if "p \<in> set seen" for p
  proof
    assume eq: "Contractor p = Contractor r"
    from c that have "Contractor p \<noteq> [] \<longrightarrow> Contractor p \<in> fst ` set m"
      unfolding counted_def by blast
    with eq ne notin show False by simp
  qed
  then have zero: "filter (\<lambda>p. Contractor p = Contractor r) seen = []"
    by (simp add: filter_empty_conv)
  show ?thesis
    unfolding new(2) counted_def
  proof (intro conjI ballI)
    show "distinct (map fst (m @ [(Contractor r, f i)]))"
      using c notin by (simp add: counted_def)
    show "\<And>p. p \<in> set (seen @ [r]) \<Longrightarrow> Contractor p \<noteq> [] \<longrightarrow> Contractor p \<in> fst ` set (m @ [(Contractor r, f i)])"
      using c by (auto simp: counted_def)
    fix kv assume kv: "kv \<in> set (m @ [(Contractor r, f i)])"
    show "fst kv \<noteq> []" using kv c ne by (auto simp: counted_def)
    show "g_Contractor (snd kv) = fst kv" using kv c i f by (auto simp: counted_def)
    show "projects (snd kv) = length (filter (\<lambda>p. Contractor p = fst kv) (seen @ [r]))"
    proof (cases "kv \<in> set m")
      case True
      then have "fst kv \<in> fst ` set m" by (rule imageI)
      then have "fst kv \<noteq> Contractor r" using notin by metis
      then show ?thesis using True c by (auto simp: counted_def)
    next
      case False
      then have "kv = (Contractor r, f i)" using kv by simp
      then show ?thesis using zero i f by simp
    qed
    show "totalCost (snd kv) = js_sum (map ContractCost (filter (\<lambda>p. Contractor p = fst kv) (seen @ [r])))"
    proof (cases "kv \<in> set m")
      case True
      then have "fst kv \<in> fst ` set m" by (rule imageI)
      then have "fst kv \<noteq> Contractor r" using notin by metis
      then show ?thesis using True c by (auto simp: counted_def)
    next
      case False
      then have "kv = (Contractor r, f i)" using kv by simp
      then show ?thesis using zero i f by (simp add: js_sum_def)
    qed
  qed
next
  case (old m1 g m2)
  have d: "distinct (map fst (m1 @ (Contractor r, g) # m2))" using c old(1) by (simp add: counted_def)
  then have "Contractor r \<notin> fst ` set m1" "Contractor r \<notin> fst ` set m2" by auto
  then have other: "\<And>kv. kv \<in> set m1 \<union> set m2 \<Longrightarrow> fst kv \<noteq> Contractor r"
    by (metis UnE imageI)
  have g: "g_Contractor g = Contractor r" "projects g = length (filter (\<lambda>p. Contractor p = Contractor r) seen)"
    "totalCost g = js_sum (map ContractCost (filter (\<lambda>p. Contractor p = Contractor r) seen))"
    using c old(1) by (auto simp: counted_def)
  show ?thesis
    unfolding old(2) counted_def
  proof (intro conjI ballI)
    show "distinct (map fst (m1 @ (Contractor r, f g) # m2))" using d by simp
    show "\<And>p. p \<in> set (seen @ [r]) \<Longrightarrow> Contractor p \<noteq> [] \<longrightarrow> Contractor p \<in> fst ` set (m1 @ (Contractor r, f g) # m2)"
      using c old(1) by (auto simp: counted_def)
    fix kv assume kv: "kv \<in> set (m1 @ (Contractor r, f g) # m2)"
    show "fst kv \<noteq> []" using kv c ne old(1) by (auto simp: counted_def)
    show "g_Contractor (snd kv) = fst kv" using kv c g f old(1) by (auto simp: counted_def)
    show "projects (snd kv) = length (filter (\<lambda>p. Contractor p = fst kv) (seen @ [r]))"
    proof (cases "kv \<in> set m1 \<union> set m2")
      case True
      then have "fst kv \<noteq> Contractor r" by (rule other)
      moreover have "kv \<in> set m" using True old(1) by auto
      ultimately show ?thesis using c by (auto simp: counted_def)
    next
      case False
      then have "kv = (Contractor r, f g)" using kv by auto
      then show ?thesis using g f by simp
    qed
    show "totalCost (snd kv) = js_sum (map ContractCost (filter (\<lambda>p. Contractor p = fst kv) (seen @ [r])))"
    proof (cases "kv \<in> set m1 \<union> set m2")
      case True
      then have "fst kv \<noteq> Contractor r" by (rule other)
      moreover have "kv \<in> set m" using True old(1) by auto
      ultimately show ?thesis using c by (auto simp: counted_def)
    next
      case False
      then have "kv = (Contractor r, f g)" using kv by auto
      then show ?thesis using g f by (simp add: js_sum_def)
    qed
  qed
qed

lemma contractorLoop_counted:
  "contractorLoop data m = Inr m' \<Longrightarrow> counted m seen \<Longrightarrow> counted m' (seen @ data)"
proof (induction data arbitrary: m seen)
  case Nil
  then show ?case by simp
next
  case (Cons r data)
  show ?case
  proof (cases "Contractor r = []")
    case True
    with Cons.prems(1) have "contractorLoop data m = Inr m'" by simp
    from Cons.IH [OF this counted_skip [OF Cons.prems(2) True]] show ?thesis by simp
  next
    case False
    let ?f = "\<lambda>c. c\<lparr> projects := projects c + 1,
                  c_delays := c_delays c @ [CompletionDelayDays r],
                  totalSavings := js_add (totalSavings c) (CostSavings r),
                  totalCost := js_add (totalCost c) (ContractCost r) \<rparr>"
    let ?i = "\<lparr> g_Contractor = Contractor r, projects = 0, c_delays = [],
                 totalSavings = Num 0, totalCost = Num 0 \<rparr>"
    let ?m = "upsert (Contractor r) ?i ?f m"
    from Cons.prems(1) False have loop: "contractorLoop data ?m = Inr m'"
      by (simp add: Let_def split: if_splits)
    have "counted ?m (seen @ [r])"
      by (rule counted_upsert [OF Cons.prems(2) False]) simp_all
    from Cons.IH [OF loop this] show ?thesis by simp
  qed
qed

lemma contractor_counts:
  assumes "contractorLoop data [] = Inr m" "g \<in> set (object_values m)"
  shows "projects g = length (filter (\<lambda>p. Contractor p = g_Contractor g) data)"
    and "totalCost g = js_sum (map ContractCost (filter (\<lambda>p. Contractor p = g_Contractor g) data))"
proof -
  have "counted [] []" by (simp add: counted_def)
  from contractorLoop_counted [OF assms(1) this] have "counted m data" by simp
  moreover from assms(2) obtain kv where "kv \<in> set m" "g = snd kv"
    by (auto simp: set_object_values)
  ultimately show "projects g = length (filter (\<lambda>p. Contractor p = g_Contractor g) data)"
    and "totalCost g = js_sum (map ContractCost (filter (\<lambda>p. Contractor p = g_Contractor g) data))"
    by (auto simp: counted_def)
qed

lemma contractor_costs_finite:
  assumes "contractorLoop data [] = Inr m" "\<forall>p\<in>set data. isFinite (ContractCost p)"
  shows "\<forall>kv\<in>set m. isFinite (totalCost (snd kv))"
proof (rule contractorLoop_invariant [OF assms(1)])
  show "\<forall>kv\<in>set []. isFinite (totalCost (snd kv))" by simp
next
  fix r assume "r \<in> set data"
  then obtain c where "ContractCost r = Num c" using assms(2) by (cases "ContractCost r") auto
  then show "isFinite (totalCost \<lparr> g_Contractor = Contractor r, projects = 1, c_delays = [CompletionDelayDays r],
                totalSavings = js_add (Num 0) (CostSavings r),
                totalCost = js_add (Num 0) (ContractCost r) \<rparr>)" by simp
next
  fix r c assume "r \<in> set data" "isFinite (totalCost c)"
  then obtain a b where "ContractCost r = Num a" "totalCost c = Num b"
    using assms(2) by (cases "ContractCost r"; cases "totalCost c") auto
  then show "isFinite (totalCost (c\<lparr> projects := projects c + 1,
                  c_delays := c_delays c @ [CompletionDelayDays r],
                  totalSavings := js_add (totalSavings c) (CostSavings r),
                  totalCost := js_add (totalCost c) (ContractCost r) \<rparr>))" by simp
qed

lemma contractor_result_fields:
  "c_Contractor (contractor_result g) = g_Contractor g"
  "NumProjects (contractor_result g) = projects g"
  "rawTotalCost (contractor_result g) = totalCost g"
  "TotalCost (contractor_result g) = formatNumber (totalCost g)"
  by (simp_all add: contractor_result_def Let_def)

lemma truncate_fields:
  "c_Contractor (ContractorRow.truncate x) = c_Contractor x"
  "NumProjects (ContractorRow.truncate x) = NumProjects x"
  "TotalCost (ContractorRow.truncate x) = TotalCost x"
  "AvgDelay (ContractorRow.truncate x) = AvgDelay x"
  "TotalSavings (ContractorRow.truncate x) = TotalSavings x"
  "ReliabilityIndex (ContractorRow.truncate x) = ReliabilityIndex x"
  "RiskFlag (ContractorRow.truncate x) = RiskFlag x"
  by (simp_all add: ContractorRow.truncate_def)

lemma ranking_members:
  assumes "x \<in> set (contractor_ranking m)"
  shows "\<exists>g\<in>set (object_values m). 5 \<le> projects g \<and> x = contractor_result g"
proof -
  from assms have "x \<in> set (js_sort (\<lambda>a b. js_sub (rawTotalCost b) (rawTotalCost a))
                (map contractor_result (filter (\<lambda>c. 5 \<le> projects c) (object_values m))))"
    unfolding contractor_ranking_def by (rule in_set_takeD)
  then show ?thesis by (auto simp: set_js_sort)
qed

lemma ranking_sorted:
  assumes "\<forall>kv\<in>set m. isFinite (totalCost (snd kv))"
  shows "sorted_wrt (\<lambda>a b. num_val (rawTotalCost b) \<le> num_val (rawTotalCost a)) (contractor_ranking m)"
proof -
  have "\<forall>y\<in>set (map contractor_result (filter (\<lambda>c. 5 \<le> projects c) (object_values m))). isFinite (rawTotalCost y)"
    using assms by (auto simp: set_object_values contractor_result_fields)
  from js_sort_desc_sorted [OF this] show ?thesis
    unfolding contractor_ranking_def by (rule sorted_wrt_take)
qed

lemma js_ge_Num: "js_ge (Num a) (Num b) = (b \<le> a)"
  by (auto simp: js_ge_def js_le_def)

text \<open>
  The ranking of the revised copy. When its report is returned and the contract costs
  are finite: every row is a contractor with at least five
  projects in the data (the number shown is the number of the projects with that
  contractor's name, the total cost shown is the sum of their contract costs), there
  are at most fifteen rows, and the rows are in non-increasing order of total contract
  cost, as shown, as summed over the data and as ranked.
\<close>

lemma contractor_report_ranked:
  assumes "generateReport2 data = Inr rows" and "\<forall>p\<in>set data. isFinite (ContractCost p)"
  shows "(\<forall>r\<in>set rows. 5 \<le> NumProjects r
            \<and> NumProjects r = length (filter (\<lambda>p. Contractor p = c_Contractor r) data)
            \<and> TotalCost r =
                formatNumber (js_sum (map ContractCost (filter (\<lambda>p. Contractor p = c_Contractor r) data))))
     \<and> length rows \<le> 15
     \<and> sorted_wrt (\<lambda>a b. js_ge (Number_of (TotalCost a)) (Number_of (TotalCost b))) rows
     \<and> sorted_wrt (\<lambda>a b. js_ge (js_sum (map ContractCost (filter (\<lambda>p. Contractor p = c_Contractor a) data)))
                             (js_sum (map ContractCost (filter (\<lambda>p. Contractor p = c_Contractor b) data)))) rows
     \<and> (\<exists>m. contractorLoop data [] = Inr m
            \<and> rows = map ContractorRow.truncate (contractor_ranking m)
            \<and> sorted_wrt (\<lambda>a b. js_ge (rawTotalCost a) (rawTotalCost b)) (contractor_ranking m))"
proof -
  from assms(1) obtain m where m: "contractorLoop data [] = Inr m"
    and rows: "rows = map ContractorRow.truncate (contractor_ranking m)"
    by (auto simp: generateReport2_def split: sum.splits)
  have fin: "\<forall>kv\<in>set m. isFinite (totalCost (snd kv))"
    by (rule contractor_costs_finite [OF m assms(2)])
  have cost: "\<exists>t. rawTotalCost x = Num t \<and> TotalCost x = formatNumber (Num t)"
    if "x \<in> set (contractor_ranking m)" for x
  proof -
    from ranking_members [OF that] obtain g where g: "g \<in> set (object_values m)" "x = contractor_result g"
      by blast
    then have "isFinite (totalCost g)" using fin by (auto simp: set_object_values)
    then obtain t where "totalCost g = Num t" by (cases "totalCost g") auto
    then show ?thesis using g by (simp add: contractor_result_fields)
  qed
  have srt: "sorted_wrt (\<lambda>a b. num_val (rawTotalCost b) \<le> num_val (rawTotalCost a)) (contractor_ranking m)"
    by (rule ranking_sorted [OF fin])
  have raw: "sorted_wrt (\<lambda>a b. js_ge (rawTotalCost a) (rawTotalCost b)) (contractor_ranking m)"
  proof (rule sorted_wrt_mono_rel [OF _ srt])
    fix a b assume "a \<in> set (contractor_ranking m)" "b \<in> set (contractor_ranking m)"
      and le: "num_val (rawTotalCost b) \<le> num_val (rawTotalCost a)"
    then obtain s t where "rawTotalCost a = Num s" "rawTotalCost b = Num t" using cost by blast
    then show "js_ge (rawTotalCost a) (rawTotalCost b)" using le by (simp add: js_ge_Num)
  qed
  have shown: "sorted_wrt (\<lambda>a b. js_ge (Number_of (TotalCost a)) (Number_of (TotalCost b))) rows"
    unfolding rows sorted_wrt_map
  proof (rule sorted_wrt_mono_rel [OF _ srt])
    fix a b assume "a \<in> set (contractor_ranking m)" "b \<in> set (contractor_ranking m)"
      and le: "num_val (rawTotalCost b) \<le> num_val (rawTotalCost a)"
    then obtain s t where st: "rawTotalCost a = Num s" "TotalCost a = formatNumber (Num s)"
        "rawTotalCost b = Num t" "TotalCost b = formatNumber (Num t)"
      using cost by blast
    have "round2 t \<le> round2 s" using le st by (intro round2_mono) simp
    then show "js_ge (Number_of (TotalCost (ContractorRow.truncate a)))
                     (Number_of (TotalCost (ContractorRow.truncate b)))"
      by (simp add: truncate_fields st formatNumber_def Number_toFixed2 js_ge_Num
               del: toFixed2.simps Number_of.simps)
  qed
  have tot: "rawTotalCost x = js_sum (map ContractCost (filter (\<lambda>p. Contractor p = c_Contractor x) data))"
    if "x \<in> set (contractor_ranking m)" for x
  proof -
    from ranking_members [OF that] obtain g where g: "g \<in> set (object_values m)" "x = contractor_result g"
      by blast
    show ?thesis
      using contractor_counts(2) [OF m g(1)] by (simp add: g(2) contractor_result_fields)
  qed
  have summed: "sorted_wrt (\<lambda>a b. js_ge (js_sum (map ContractCost (filter (\<lambda>p. Contractor p = c_Contractor a) data)))
                             (js_sum (map ContractCost (filter (\<lambda>p. Contractor p = c_Contractor b) data)))) rows"
    unfolding rows sorted_wrt_map
  proof (rule sorted_wrt_mono_rel [OF _ raw])
    fix a b assume a: "a \<in> set (contractor_ranking m)" and b: "b \<in> set (contractor_ranking m)"
      and ge: "js_ge (rawTotalCost a) (rawTotalCost b)"
    show "js_ge (js_sum (map ContractCost (filter (\<lambda>p. Contractor p = c_Contractor (ContractorRow.truncate a)) data)))
                (js_sum (map ContractCost (filter (\<lambda>p. Contractor p = c_Contractor (ContractorRow.truncate b)) data)))"
      using ge unfolding truncate_fields tot [OF a] tot [OF b] .
  qed
  have count: "5 \<le> NumProjects r \<and> NumProjects r = length (filter (\<lambda>p. Contractor p = c_Contractor r) data)
      \<and> TotalCost r = formatNumber (js_sum (map ContractCost (filter (\<lambda>p. Contractor p = c_Contractor r) data)))"
    if "r \<in> set rows" for r
  proof -
    from that obtain x where x: "x \<in> set (contractor_ranking m)" "r = ContractorRow.truncate x"
      unfolding rows by auto
    from ranking_members [OF x(1)] obtain g where
      g: "g \<in> set (object_values m)" "5 \<le> projects g" "x = contractor_result g"
      by blast
    show ?thesis
      using contractor_counts [OF m g(1)] g(2)
      by (simp add: x(2) g(3) truncate_fields contractor_result_fields)
  qed
  have len: "length rows \<le> 15" by (simp add: rows contractor_ranking_def)
  show ?thesis using count len shown summed m rows raw by blast
qed

subsection \<open>Evaluation on the examples\<close>

lemma replicate_num: "replicate (numeral k) x = x # replicate (pred_numeral k) x"
  by (simp add: numeral_eq_Suc)

lemmas report2_defs = replicate_num
  generateReport2_def contractor_ranking_def contractor_result_def upsert_def object_prototype_keys_def
  object_values_def is_array_index_def is_digit_def average_def
  average_step_def js_sort_def js_gt_def js_sub_def js_sum_def formatNumber_def hundredths_def
  Math_min_def ContractorRow.truncate_def
  ranking_data_def sample_project_def Let_def

lemmas report3_defs =
  generateReport3_def typeMap_of_def type_step_def type_key_def show_int_def digit_char_def upsert_def
  object_values_def is_array_index_def is_digit_def trend_result_def yoy_change_def weightedYearAvg_def
  year_step_def or_default_def trend_compare_def average_def
  average_step_def js_sort_def js_gt_def js_sub_def js_sum_def formatNumber_def hundredths_def
  TrendRow.truncate_def trend_data_def sample_project_def Let_def

text \<open>The ranking of the revised copy on an example.\<close>

lemma report2_ranking_example:
  "\<exists>rows. generateReport2 ranking_data = Inr rows
      \<and> map c_Contractor rows = [''Cruz'', ''ACME'']
      \<and> map NumProjects rows = [6, 5]
      \<and> map TotalCost rows = [Dec False 150000, Dec False 40000]
      \<and> list_all (\<lambda>r. 5 \<le> NumProjects r
            \<and> NumProjects r = length (filter (\<lambda>p. Contractor p = c_Contractor r) ranking_data)) rows
      \<and> length rows \<le> 15
      \<and> sorted_wrt (\<lambda>a b. js_ge (Number_of (TotalCost a)) (Number_of (TotalCost b))) rows"
proof -
  let ?rows = "[\<lparr> c_Contractor = ''Cruz'', TotalCost = Dec False 150000, NumProjects = 6,
           AvgDelay = Dec False 0, TotalSavings = Dec False 30000,
           ReliabilityIndex = Dec False 2000, RiskFlag = ''High Risk'' \<rparr>,
        \<lparr> c_Contractor = ''ACME'', TotalCost = Dec False 40000, NumProjects = 5,
           AvgDelay = Dec False 1000, TotalSavings = Dec False 10000,
           ReliabilityIndex = Dec False 2222, RiskFlag = ''High Risk'' \<rparr>]"
  have run: "generateReport2 ranking_data = Inr ?rows"
    by (simp add: report2_defs)
  have fin: "\<forall>p\<in>set ranking_data. isFinite (ContractCost p)"
    by (simp add: ranking_data_def sample_project_def)
  from contractor_report_ranked [OF run fin]
  have "(\<forall>r\<in>set ?rows. 5 \<le> NumProjects r
            \<and> NumProjects r = length (filter (\<lambda>p. Contractor p = c_Contractor r) ranking_data))
     \<and> length ?rows \<le> 15
     \<and> sorted_wrt (\<lambda>a b. js_ge (Number_of (TotalCost a)) (Number_of (TotalCost b))) ?rows"
    by blast
  then show ?thesis
    unfolding list_all_iff using run by (intro exI [of _ ?rows]) simp
qed

section \<open>Cost-trend report: the change against the baseline year\<close>

lemma type_groups_sound:
  assumes "\<forall>p\<in>set data. isFinite (CostSavings p)"
  shows "\<forall>kv\<in>set (typeMap_of data). sound_group (snd kv)"
  unfolding typeMap_of_fold by (rule fold_upsert_invariant) (use assms in \<open>auto simp: sound_group_def\<close>)

lemma finite_list: "\<forall>s\<in>set xs. isFinite s \<Longrightarrow> xs = map Num (map num_val xs)"
proof (induction xs)
  case Nil
  then show ?case by simp
next
  case (Cons x xs)
  then show ?case by (cases x) auto
qed

lemma average_sound:
  assumes "xs \<noteq> []" "\<forall>s\<in>set xs. isFinite s"
  shows "average xs = Num ((\<Sum>s\<leftarrow>xs. num_val s) / real (length xs))"
proof -
  have xs: "xs = map Num (map num_val xs)" by (rule finite_list [OF assms(2)])
  have "\<not> isNaN x" if "x \<in> set xs" for x
    using assms(2) that by (cases x) auto
  then have "filter (\<lambda>x. \<not> isNaN x) xs = xs" by (simp add: filter_id_conv)
  then show ?thesis using assms(1) js_sum_val [OF assms(2)] by (simp add: average_eq)
qed

lemma group_weight:
  assumes "sound_group g"
  shows "real (length (t_savings g)) * num_val (average (t_savings g)) = (\<Sum>s\<leftarrow>t_savings g. num_val s)"
  using assms by (simp add: sound_group_def average_sound)

lemma or_default_Num: "or_default (Some (Num t)) (Num 0) = Num t"
  by (simp add: or_default_def)

lemma or_default_None: "or_default None d = d"
  by (simp add: or_default_def)

lemma year_tables:
  assumes "\<forall>g\<in>set gs. sound_group g"
  shows "fold year_step gs (Map.empty, Map.empty) =
     ((\<lambda>y. if year_groups gs y = [] then None
            else Some (Num (\<Sum>g\<leftarrow>year_groups gs y. \<Sum>s\<leftarrow>t_savings g. num_val s))),
      (\<lambda>y. if year_groups gs y = [] then None
            else Some (Num (\<Sum>g\<leftarrow>year_groups gs y. real (length (t_savings g))))))"
  using assms
proof (induction gs rule: rev_induct)
  case Nil
  then show ?case by (simp add: year_groups_def)
next
  case (snoc g gs)
  then have fin: "\<forall>s\<in>set (t_savings g). isFinite s" by (simp add: sound_group_def)
  have IH: "fold year_step gs (Map.empty, Map.empty) =
     ((\<lambda>y. if year_groups gs y = [] then None
            else Some (Num (\<Sum>g\<leftarrow>year_groups gs y. \<Sum>s\<leftarrow>t_savings g. num_val s))),
      (\<lambda>y. if year_groups gs y = [] then None
            else Some (Num (\<Sum>g\<leftarrow>year_groups gs y. real (length (t_savings g))))))"
    using snoc by simp
  show ?case
    unfolding fold_append comp_def fold_simps IH
    by (auto simp: year_step_def Let_def js_sum_val [OF fin] year_groups_def or_default_Num or_default_None
             intro!: ext)
qed

lemma counts_positive:
  assumes "\<forall>g\<in>set gs. sound_group g" "gs \<noteq> []"
  shows "0 < (\<Sum>g\<leftarrow>gs. real (length (t_savings g)))"
  using assms
proof (induction gs)
  case Nil
  then show ?case by simp
next
  case (Cons g gs)
  have "t_savings g \<noteq> []" using Cons.prems by (simp add: sound_group_def)
  then have "0 < real (length (t_savings g))" by simp
  moreover have "0 \<le> (\<Sum>g\<leftarrow>gs. real (length (t_savings g)))" by (rule sum_list_nonneg) auto
  ultimately have "0 < real (length (t_savings g)) + (\<Sum>g\<leftarrow>gs. real (length (t_savings g)))"
    by linarith
  then show ?case by simp
qed

lemma weighted_avg_total:
  assumes "\<forall>g\<in>set gs. sound_group g"
  shows "weighted_avg gs
    = (\<Sum>g\<leftarrow>gs. \<Sum>s\<leftarrow>t_savings g. num_val s) / (\<Sum>g\<leftarrow>gs. real (length (t_savings g)))"
proof -
  have "map (\<lambda>g. real (length (t_savings g)) * num_val (average (t_savings g))) gs
      = map (\<lambda>g. \<Sum>s\<leftarrow>t_savings g. num_val s) gs"
    using assms by (simp add: group_weight)
  then have "(\<Sum>g\<leftarrow>gs. real (length (t_savings g)) * num_val (average (t_savings g)))
      = (\<Sum>g\<leftarrow>gs. \<Sum>s\<leftarrow>t_savings g. num_val s)"
    by (rule arg_cong)
  then show ?thesis unfolding weighted_avg_def by (rule arg_cong)
qed

lemma weightedYearAvg_eq:
  assumes "\<forall>g\<in>set gs. sound_group g"
  shows "weightedYearAvg gs y =
     (if year_groups gs y = [] then None else Some (Num (weighted_avg (year_groups gs y))))"
proof (cases "year_groups gs y = []")
  case True
  then show ?thesis by (simp add: weightedYearAvg_def year_tables [OF assms])
next
  case False
  have sound: "\<forall>g\<in>set (year_groups gs y). sound_group g" using assms by (simp add: year_groups_def)
  have "0 < (\<Sum>g\<leftarrow>year_groups gs y. real (length (t_savings g)))"
    by (rule counts_positive [OF sound False])
  then show ?thesis
    using False by (simp add: weightedYearAvg_def year_tables [OF assms] weighted_avg_total [OF sound])
qed

lemma yoy_change_eq:
  assumes "\<forall>g\<in>set gs. sound_group g" "year_groups gs y \<noteq> []"
  shows "yoy_change gs y = toFixed2 (Num (yoy_amended gs y))"
proof -
  let ?b = "if year_groups gs 2021 = [] then 0 else weighted_avg (year_groups gs 2021)"
  let ?a = "weighted_avg (year_groups gs y)"
  have base: "or_default (weightedYearAvg gs 2021) (Num 0) = Num ?b"
    by (simp add: weightedYearAvg_eq [OF assms(1)] or_default_Num or_default_None)
  have avg: "or_default (weightedYearAvg gs y) (Num 0) = Num ?a"
    using assms(2) by (simp add: weightedYearAvg_eq [OF assms(1)] or_default_Num)
  show ?thesis
    unfolding yoy_change_def yoy_amended_def base avg Let_def
    by (simp add: js_sub_def del: toFixed2.simps)
qed

lemma report3_rows:
  assumes "r \<in> set (generateReport3 data)"
  obtains g where "g \<in> set (object_values (typeMap_of data))"
    "r = TrendRow.truncate (trend_result (object_values (typeMap_of data)) g)"
  using assms by (auto simp: generateReport3_def Let_def set_js_sort)

lemma trend_fields:
  "FundingYear_of (TrendRow.truncate (trend_result gs g)) = t_FundingYear g"
  "YoYChange (TrendRow.truncate (trend_result gs g)) = yoy_change gs (t_FundingYear g)"
  by (simp_all add: TrendRow.truncate_def trend_result_def Let_def)


section \<open>The groups are never empty\<close>

text \<open>
  Claim C10. Every group that the three analyzers build holds at least one project:
  the lists of a region group and of a year and work-type group are not empty, and a
  contractor group counts at least one project and has a delay. So the lengths that
  divide in delayOver30Percent and in overrunRate are not zero.
\<close>

theorem groups_nonempty:
  "(\<forall>g\<in>set (object_values (regionMap_of data)).
       length (delays g) \<noteq> 0 \<and> length (savings g) \<noteq> 0 \<and> length (budgets g) \<noteq> 0)
   \<and> (\<forall>g\<in>set (object_values (typeMap_of data)). length (t_savings g) \<noteq> 0)
   \<and> (\<forall>m. contractorLoop data [] = Inr m \<longrightarrow>
         (\<forall>g\<in>set (object_values m). 1 \<le> projects g \<and> length (c_delays g) \<noteq> 0))"
  using region_groups_nonempty [of data] type_groups_nonempty [of data] contractor_groups_nonempty [of data]
  by (auto simp: set_object_values)

lemma contractorLoop_returns:
  "\<forall>p\<in>set data. Contractor p \<notin> set object_prototype_keys \<Longrightarrow> \<exists>m'. contractorLoop data m = Inr m'"
  by (induction data arbitrary: m) (simp_all add: Let_def)

theorem groups_nonempty_witness:
  "list_all (\<lambda>g. length (delays g) \<noteq> 0 \<and> length (savings g) \<noteq> 0 \<and> length (budgets g) \<noteq> 0)
     (object_values (regionMap_of sample_data))
   \<and> map (\<lambda>g. length (delays g)) (object_values (regionMap_of sample_data)) = [3, 1]
   \<and> list_all (\<lambda>g. length (t_savings g) \<noteq> 0) (object_values (typeMap_of sample_data))
   \<and> (\<exists>m. contractorLoop ranking_data [] = Inr m
         \<and> list_all (\<lambda>g. 1 \<le> projects g \<and> length (c_delays g) \<noteq> 0) (object_values m))"
proof -
  have "\<forall>p\<in>set ranking_data. Contractor p \<notin> set object_prototype_keys"
    by (simp add: ranking_data_def sample_project_def object_prototype_keys_def)
  from contractorLoop_returns [OF this] obtain m where m: "contractorLoop ranking_data [] = Inr m"
    by blast
  have lens: "map (\<lambda>g. length (delays g)) (object_values (regionMap_of sample_data)) = [3, 1]"
    by (simp add: report1_defs)
  show ?thesis
    unfolding list_all_iff using groups_nonempty [of sample_data] groups_nonempty [of ranking_data] m lens
    by blast
qed

section \<open>No NaN and no infinity in the reports\<close>

lemma decimal_formatNumber: "x \<noteq> PosInf \<Longrightarrow> x \<noteq> NegInf \<Longrightarrow> is_decimal (formatNumber x)"
  by (cases x) (simp_all add: formatNumber_def)

lemma decimal_format_finite: "isFinite x \<Longrightarrow> is_decimal (formatNumber x)"
  by (cases x) (simp_all add: formatNumber_def)

lemma average_not_infinite:
  assumes "\<forall>x\<in>set xs. x \<noteq> PosInf \<and> x \<noteq> NegInf"
  shows "isFinite (average xs)"
  by (simp add: average_finite [OF assms])

lemma median_finite:
  assumes "\<forall>x\<in>set xs. isFinite x"
  shows "isFinite (median xs)"
proof (cases "xs = []")
  case True
  then show ?thesis by (simp add: median_def)
next
  case False
  have xs: "xs = map Num (map num_val xs)" by (rule finite_list [OF assms])
  from False have "map num_val xs \<noteq> []" by simp
  from median_Num [OF this] show ?thesis using xs by simp
qed

lemma ratio_percent_finite: "n \<noteq> 0 \<Longrightarrow> isFinite (js_mul (js_div (Num a) (Num (real n))) (Num 100))"
  by simp

subsection \<open>Regional report\<close>

lemma region_groups_sound:
  assumes "\<forall>p\<in>set data. finite_project p"
  shows "\<forall>kv\<in>set (regionMap_of data). sound_region (snd kv)"
  unfolding regionMap_of_fold
  by (rule fold_upsert_invariant) (use assms in \<open>auto simp: sound_region_def finite_project_def\<close>)

lemma region_result_decimal:
  assumes "sound_region g"
  shows "is_decimal (TotalApprovedBudget (region_result g))"
    "is_decimal (MedianCostSavings (region_result g))"
    "is_decimal (AvgCompletionDelayDays (region_result g))"
    "is_decimal (DelayOver30Percent (region_result g))"
proof -
  have b: "\<forall>b\<in>set (budgets g). isFinite b" and s: "\<forall>s\<in>set (savings g). isFinite s"
    and d: "\<forall>d\<in>set (delays g). d \<noteq> PosInf \<and> d \<noteq> NegInf" and ne: "length (delays g) \<noteq> 0"
    using assms by (simp_all add: sound_region_def)
  show "is_decimal (TotalApprovedBudget (region_result g))"
    by (simp add: region_result_def Let_def js_sum_val [OF b] decimal_format_finite)
  show "is_decimal (MedianCostSavings (region_result g))"
    by (simp add: region_result_def Let_def median_finite [OF s] decimal_format_finite)
  show "is_decimal (AvgCompletionDelayDays (region_result g))"
    by (simp add: region_result_def Let_def average_not_infinite [OF d] decimal_format_finite)
  have "is_decimal (formatNumber (js_mul (js_div (Num (real (length (filter (\<lambda>d. js_gt d (Num 30)) (delays g)))))
                           (Num (real (length (delays g))))) (Num 100)))"
    by (rule decimal_format_finite) (rule ratio_percent_finite [OF ne])
  then show "is_decimal (DelayOver30Percent (region_result g))"
    by (simp add: region_result_def Let_def)
qed

lemma report1_finite:
  assumes "\<forall>p\<in>set data. finite_project p" "r \<in> set (generateReport1 data)"
  shows "is_decimal (TotalApprovedBudget r) \<and> is_decimal (MedianCostSavings r)
     \<and> is_decimal (AvgCompletionDelayDays r) \<and> is_decimal (DelayOver30Percent r)
     \<and> isFinite (EfficiencyScore r)"
proof -
  from report1_rows [OF assms(2)] obtain r0 where r0: "r0 \<in> set (region_results data)"
    and r: "r = r0\<lparr> EfficiencyScore :=
                  normalize_score (Math_min_list (map EfficiencyScore (region_results data)))
                                  (Math_max_list (map EfficiencyScore (region_results data)))
                                  (EfficiencyScore r0) \<rparr>"
    by blast
  from r0 obtain g where g: "g \<in> set (object_values (regionMap_of data))" "r0 = region_result g"
    by (auto simp: region_results_def)
  then have sound: "sound_region g"
    using region_groups_sound [OF assms(1)] by (auto simp: set_object_values)
  from report1_score [OF assms(2)] obtain xs x where x: "x \<in> set xs"
    and s: "EfficiencyScore r = normalize_score (Num (Min (set xs))) (Num (Max (set xs))) (Num x)"
    by metis
  from normalize_range [OF x] s have "isFinite (EfficiencyScore r)" by auto
  then show ?thesis using region_result_decimal [OF sound] by (simp add: r g(2))
qed

subsection \<open>Contractor report\<close>

lemma finite_add: "isFinite a \<Longrightarrow> isFinite b \<Longrightarrow> isFinite (js_add a b)"
  by (cases a; cases b) simp_all

lemma contractor_groups_sound:
  assumes "contractorLoop data [] = Inr m" "\<forall>p\<in>set data. finite_project p"
  shows "\<forall>kv\<in>set m. sound_contractor (snd kv)"
  by (rule contractorLoop_invariant [OF assms(1)])
     (use assms(2) in \<open>auto simp: sound_contractor_def finite_project_def finite_add\<close>)

lemma contractor_result_decimal:
  assumes "sound_contractor c"
  shows "is_decimal (TotalCost (contractor_result c))"
    "is_decimal (AvgDelay (contractor_result c))"
    "is_decimal (TotalSavings (contractor_result c))"
    "is_decimal (ReliabilityIndex (contractor_result c))"
proof -
  have s: "isFinite (totalSavings c)" and t: "isFinite (totalCost c)"
    and d: "\<forall>d\<in>set (c_delays c). d \<noteq> PosInf \<and> d \<noteq> NegInf"
    using assms by (simp_all add: sound_contractor_def)
  show "is_decimal (TotalCost (contractor_result c))"
    by (simp add: contractor_result_def Let_def t decimal_format_finite)
  show "is_decimal (AvgDelay (contractor_result c))"
    by (simp add: contractor_result_def Let_def average_not_infinite [OF d] decimal_format_finite)
  show "is_decimal (TotalSavings (contractor_result c))"
    by (simp add: contractor_result_def Let_def s decimal_format_finite)
  have "isFinite (Math_min (Num 100) (if \<not> isFinite x then Num 0 else x))" for x
    by (cases x) (simp_all add: Math_min_def)
  then show "is_decimal (ReliabilityIndex (contractor_result c))"
    by (simp add: contractor_result_def Let_def decimal_format_finite del: isFinite.simps)
qed

lemma report2_finite:
  assumes "\<forall>p\<in>set data. finite_project p" "generateReport2 data = Inr rows" "r \<in> set rows"
  shows "is_decimal (TotalCost r) \<and> is_decimal (AvgDelay r) \<and> is_decimal (TotalSavings r)
     \<and> is_decimal (ReliabilityIndex r)"
proof -
  from assms(2) obtain m where m: "contractorLoop data [] = Inr m"
    and rows: "rows = map ContractorRow.truncate (contractor_ranking m)"
    by (auto simp: generateReport2_def split: sum.splits)
  from assms(3) obtain x where x: "x \<in> set (contractor_ranking m)" "r = ContractorRow.truncate x"
    unfolding rows by auto
  from ranking_members [OF x(1)] obtain g where g: "g \<in> set (object_values m)" "x = contractor_result g"
    by blast
  then have "sound_contractor g"
    using contractor_groups_sound [OF m assms(1)] by (auto simp: set_object_values)
  from contractor_result_decimal [OF this] show ?thesis by (simp add: x(2) g(2) truncate_fields)
qed

subsection \<open>Cost-trend report\<close>

lemma trend_fields_more:
  "AvgCostSavings (TrendRow.truncate (trend_result gs g)) = formatNumber (average (t_savings g))"
  "OverrunRate (TrendRow.truncate (trend_result gs g)) =
     formatNumber (if length (t_savings g) \<noteq> 0
             then js_mul (js_div (Num (real (length (filter (\<lambda>s. js_lt s (Num 0)) (t_savings g)))))
                                 (Num (real (length (t_savings g))))) (Num 100)
             else Num 0)"
  by (simp_all add: TrendRow.truncate_def trend_result_def Let_def)

lemma report3_finite:
  assumes "\<forall>p\<in>set data. finite_project p" "r \<in> set (generateReport3 data)"
  shows "is_decimal (AvgCostSavings r) \<and> is_decimal (OverrunRate r) \<and> is_decimal (YoYChange r)"
proof -
  let ?gs = "object_values (typeMap_of data)"
  from report3_rows [OF assms(2)] obtain g where
    g: "g \<in> set ?gs" "r = TrendRow.truncate (trend_result ?gs g)" by blast
  have fin: "\<forall>p\<in>set data. isFinite (CostSavings p)" using assms(1) by (simp add: finite_project_def)
  have sound: "\<forall>g\<in>set ?gs. sound_group g"
    using type_groups_sound [OF fin] by (auto simp: set_object_values)
  then have sg: "sound_group g" using g(1) by blast
  have "isFinite (average (t_savings g))"
    using sg by (simp add: sound_group_def average_sound)
  then have a: "is_decimal (AvgCostSavings r)"
    by (simp add: g(2) trend_fields_more decimal_format_finite)
  have "isFinite (if length (t_savings g) \<noteq> 0
             then js_mul (js_div (Num (real (length (filter (\<lambda>s. js_lt s (Num 0)) (t_savings g)))))
                                 (Num (real (length (t_savings g))))) (Num 100)
             else Num 0)"
    by simp
  then have b: "is_decimal (OverrunRate r)"
    unfolding g(2) trend_fields_more by (rule decimal_format_finite)
  have year: "FundingYear_of r = t_FundingYear g" by (simp add: g(2) trend_fields)
  have ne: "year_groups ?gs (t_FundingYear g) \<noteq> []"
    using g(1) by (auto simp: year_groups_def filter_empty_conv)
  have c: "is_decimal (YoYChange r)"
    using yoy_change_eq [OF sound ne] by (simp add: g(2) trend_fields)
  show ?thesis using a b c by simp
qed

subsection \<open>The degenerate divisions\<close>

lemma efficiency_zero_delay:
  "average (delays g) = Num 0 \<Longrightarrow> EfficiencyScore (region_result g) = Num 0"
  by (cases "median (savings g)") (simp_all add: region_result_def Let_def inf_of_sign_def)

lemma reliability_zero_cost:
  assumes "totalCost c = Num 0"
  shows "ReliabilityIndex (contractor_result c) = Dec False 0"
proof -
  let ?a = "js_sub (Num 1) (js_div (average (c_delays c)) (Num 90))"
  let ?q = "js_div (totalSavings c) (Num 0)"
  have q: "\<not> isFinite ?q" by (cases "totalSavings c") (simp_all add: inf_of_sign_def)
  have "\<not> isFinite (js_mul ?a ?q)" using q by (cases ?a; cases ?q) (simp_all add: inf_of_sign_def)
  then have "\<not> isFinite (js_mul (js_mul ?a ?q) (Num 100))"
    by (cases "js_mul ?a ?q") (simp_all add: inf_of_sign_def)
  then show ?thesis
    by (simp add: contractor_result_def Let_def assms Math_min_def formatNumber_def hundredths_def)
qed

text \<open>
  The revised copy. For projects whose budget, cost and savings are finite and whose
  delay is finite or NaN, every number shown in a row of the three reports is a decimal
  number, and every efficiency score is finite: no NaN and no infinity reaches the
  output. The degenerate divisions come out as 0: the efficiency of a group whose
  average delay is zero, and the reliability index of a contractor whose total cost is
  zero.
\<close>

lemma reports_are_finite:
  assumes "\<forall>p\<in>set data. finite_project p"
  shows "(\<forall>r\<in>set (generateReport1 data).
            is_decimal (TotalApprovedBudget r) \<and> is_decimal (MedianCostSavings r)
            \<and> is_decimal (AvgCompletionDelayDays r) \<and> is_decimal (DelayOver30Percent r)
            \<and> isFinite (EfficiencyScore r))
     \<and> (\<forall>rows. generateReport2 data = Inr rows \<longrightarrow>
           (\<forall>r\<in>set rows. is_decimal (TotalCost r) \<and> is_decimal (AvgDelay r)
              \<and> is_decimal (TotalSavings r) \<and> is_decimal (ReliabilityIndex r)))
     \<and> (\<forall>r\<in>set (generateReport3 data).
           is_decimal (AvgCostSavings r) \<and> is_decimal (OverrunRate r) \<and> is_decimal (YoYChange r))
     \<and> (\<forall>g. average (delays g) = Num 0 \<longrightarrow> EfficiencyScore (region_result g) = Num 0)
     \<and> (\<forall>c. totalCost c = Num 0 \<longrightarrow> ReliabilityIndex (contractor_result c) = Dec False 0)"
  using report1_finite [OF assms] report2_finite [OF assms] report3_finite [OF assms]
        efficiency_zero_delay reliability_zero_cost
  by blast

text \<open>The projects the cleaner returns are such projects, when the amounts parse to finite numbers.\<close>

lemma cleanRow_finite:
  assumes "cleanRow lib r = Inr (Some p)"
    and "parseFloatSafe lib (raw_ApprovedBudgetForContract r) \<noteq> PosInf"
    and "parseFloatSafe lib (raw_ContractCost r) \<noteq> PosInf"
  shows "finite_project p \<and> js_gt (ApprovedBudgetForContract p) (Num 0) \<and> js_gt (ContractCost p) (Num 0)
     \<and> FundingYear p \<in> {2021, 2022, 2023}"
proof -
  let ?b = "parseFloatSafe lib (raw_ApprovedBudgetForContract r)"
  let ?c = "parseFloatSafe lib (raw_ContractCost r)"
  from assms(1) have le: "\<not> js_le ?b (Num 0)" "\<not> js_le ?c (Num 0)"
    by (auto simp: cleanRow_def Let_def split: option.splits if_splits)
  from le(1) assms(2) obtain b where b: "?b = Num b" "0 < b"
    using parseFloatSafe_not_NaN [of lib "raw_ApprovedBudgetForContract r"]
    by (cases ?b) (auto simp: js_le_def)
  from le(2) assms(3) obtain c where c: "?c = Num c" "0 < c"
    using parseFloatSafe_not_NaN [of lib "raw_ContractCost r"]
    by (cases ?c) (auto simp: js_le_def)
  from assms(1) show ?thesis
    by (auto simp: cleanRow_def Let_def b c finite_project_def js_gt_def js_sub_def diff_days_def
             split: option.splits if_splits)
qed

section \<open>The earlier copy: where it differs and what it shares\<close>

subsection \<open>Evaluation on the examples\<close>

lemmas report1_main_defs =
  generateReport1_main_def regionMap_of_def region_step_def region_key_def upsert_def
  object_values_def is_array_index_def is_digit_def region_result_main_def median_def average_main_def
  js_sort_def js_gt_def js_sub_def js_sum_def formatNumber_def hundredths_def
  Math_min_def Math_max_def sample_data_def sample_project_def Let_def

lemmas report2_main_defs = replicate_num
  generateReport2_main_def contractor_result_main_def upsert_def object_prototype_keys_def
  object_values_def is_array_index_def is_digit_def average_main_def
  js_sort_def js_gt_def js_sub_def js_sum_def formatNumber_def hundredths_def
  Math_min_def Math_max_def ranking_data2_def sample_project_def Let_def

lemmas report3_main_defs =
  generateReport3_main_def typeMap_of_def type_step_def type_key_def show_int_def digit_char_def upsert_def
  object_values_def is_array_index_def is_digit_def trend_result_main_def yoy_change_main_def
  avgSavingsByYear_of_def avg_step_def trend_compare_main_def average_main_def
  js_sort_def js_gt_def js_sub_def js_sum_def formatNumber_def hundredths_def
  trend_data2_def sample_project_def Let_def

subsection \<open>Shared properties\<close>

lemma fold_add_not_infinite:
  assumes "\<forall>x\<in>set xs. x \<noteq> PosInf \<and> x \<noteq> NegInf" "s \<noteq> PosInf" "s \<noteq> NegInf"
  shows "fold (\<lambda>b a. js_add a b) xs s \<noteq> PosInf \<and> fold (\<lambda>b a. js_add a b) xs s \<noteq> NegInf"
  using assms
proof (induction xs arbitrary: s)
  case Nil
  then show ?case by simp
next
  case (Cons x xs)
  have "js_add s x \<noteq> PosInf \<and> js_add s x \<noteq> NegInf"
    using Cons.prems by (cases s; cases x) simp_all
  then show ?case using Cons by simp
qed

lemma average_main_not_infinite:
  assumes "\<forall>x\<in>set xs. x \<noteq> PosInf \<and> x \<noteq> NegInf"
  shows "average_main xs \<noteq> PosInf \<and> average_main xs \<noteq> NegInf"
proof (cases "xs = []")
  case True
  then show ?thesis by (simp add: average_main_def)
next
  case False
  have "js_sum xs \<noteq> PosInf \<and> js_sum xs \<noteq> NegInf"
    unfolding js_sum_def by (rule fold_add_not_infinite [OF assms]) simp_all
  then show ?thesis using False by (cases "js_sum xs") (simp_all add: average_main_def)
qed

lemma average_main_finite:
  assumes "\<forall>x\<in>set xs. isFinite x"
  shows "isFinite (average_main xs)"
  by (cases "xs = []") (simp_all add: average_main_def js_sum_val [OF assms])

lemma clamp_finite:
  "isFinite (Math_min (Num 100) (Math_max (Num 0) (if \<not> isFinite x \<or> P then Num 0 else x)))"
  by (cases x) (simp_all add: Math_min_def Math_max_def)

lemma region_result_main_decimal:
  assumes "sound_region g"
  shows "is_decimal (m_TotalApprovedBudget (region_result_main g))
     \<and> is_decimal (m_MedianCostSavings (region_result_main g))
     \<and> is_decimal (m_AvgCompletionDelayDays (region_result_main g))
     \<and> is_decimal (m_DelayOver30Percent (region_result_main g))
     \<and> is_decimal (m_EfficiencyScore (region_result_main g))"
proof -
  have b: "\<forall>b\<in>set (budgets g). isFinite b" and s: "\<forall>s\<in>set (savings g). isFinite s"
    and d: "\<forall>d\<in>set (delays g). d \<noteq> PosInf \<and> d \<noteq> NegInf" and ne: "length (delays g) \<noteq> 0"
    using assms by (simp_all add: sound_region_def)
  have avg: "is_decimal (formatNumber (average_main (delays g)))"
    using average_main_not_infinite [OF d] by (simp add: decimal_formatNumber)
  have over: "is_decimal (formatNumber (js_mul (js_div (Num (real (length (filter (\<lambda>d. js_gt d (Num 30)) (delays g)))))
                           (Num (real (length (delays g))))) (Num 100)))"
    by (rule decimal_format_finite) (rule ratio_percent_finite [OF ne])
  let ?e = "js_mul (js_div (median (savings g)) (average_main (delays g))) (Num 100)"
  have eff: "is_decimal (formatNumber (Math_min (Num 100) (Math_max (Num 0)
               (if \<not> isFinite ?e \<or> js_lt ?e (Num 0) then Num 0 else ?e))))"
    by (rule decimal_format_finite) (rule clamp_finite)
  have tot: "is_decimal (formatNumber (js_sum (budgets g)))"
    by (simp add: js_sum_val [OF b] decimal_format_finite)
  have med: "is_decimal (formatNumber (median (savings g)))"
    by (simp add: median_finite [OF s] decimal_format_finite)
  have fields:
    "m_TotalApprovedBudget (region_result_main g) = formatNumber (js_sum (budgets g))"
    "m_MedianCostSavings (region_result_main g) = formatNumber (median (savings g))"
    "m_AvgCompletionDelayDays (region_result_main g) = formatNumber (average_main (delays g))"
    "m_DelayOver30Percent (region_result_main g) =
       formatNumber (js_mul (js_div (Num (real (length (filter (\<lambda>d. js_gt d (Num 30)) (delays g)))))
                           (Num (real (length (delays g))))) (Num 100))"
    "m_EfficiencyScore (region_result_main g) =
       formatNumber (Math_min (Num 100) (Math_max (Num 0)
               (if \<not> isFinite ?e \<or> js_lt ?e (Num 0) then Num 0 else ?e)))"
    by (simp_all add: region_result_main_def Let_def del: js_div.simps js_mul.simps)
  show ?thesis unfolding fields using tot med avg over eff by (intro conjI)
qed

lemma contractor_result_main_decimal:
  assumes "sound_contractor c"
  shows "is_decimal (m_AvgDelay (contractor_result_main c))
     \<and> is_decimal (m_TotalCostSavings (contractor_result_main c))
     \<and> is_decimal (m_ReliabilityIndex (contractor_result_main c))"
proof -
  have s: "isFinite (totalSavings c)"
    and d: "\<forall>d\<in>set (c_delays c). d \<noteq> PosInf \<and> d \<noteq> NegInf"
    using assms by (simp_all add: sound_contractor_def)
  have avg: "is_decimal (formatNumber (average_main (c_delays c)))"
    using average_main_not_infinite [OF d] by (simp add: decimal_formatNumber)
  let ?r = "js_mul (js_mul (js_sub (Num 1) (js_div (average_main (c_delays c)) (Num 90)))
                           (js_div (totalSavings c) (totalCost c))) (Num 100)"
  have "isFinite (Math_min (Num 100) (Math_max (Num 0) (if \<not> isFinite ?r \<or> False then Num 0 else ?r)))"
    by (rule clamp_finite)
  then have rel: "is_decimal (formatNumber (Math_min (Num 100) (Math_max (Num 0)
               (if \<not> isFinite ?r then Num 0 else ?r))))"
    by (simp add: decimal_format_finite del: isFinite.simps)
  have fields:
    "m_AvgDelay (contractor_result_main c) = formatNumber (average_main (c_delays c))"
    "m_TotalCostSavings (contractor_result_main c) = formatNumber (totalSavings c)"
    "m_ReliabilityIndex (contractor_result_main c) =
       formatNumber (Math_min (Num 100) (Math_max (Num 0) (if \<not> isFinite ?r then Num 0 else ?r)))"
    by (simp_all add: contractor_result_main_def Let_def del: js_div.simps js_mul.simps)
  have sav: "is_decimal (formatNumber (totalSavings c))" using s by (rule decimal_format_finite)
  show ?thesis unfolding fields using avg sav rel by (intro conjI)
qed

lemma avg_table_finite:
  assumes "\<forall>g\<in>set gs. sound_group g" "\<forall>y. \<forall>x\<in>set (tab y). isFinite x"
  shows "\<forall>y. \<forall>x\<in>set (fold avg_step gs tab y). isFinite x"
  using assms
proof (induction gs arbitrary: tab)
  case Nil
  then show ?case by simp
next
  case (Cons g gs)
  have "isFinite (average_main (t_savings g))"
    using Cons.prems(1) by (intro average_main_finite) (simp add: sound_group_def)
  then have "\<forall>y. \<forall>x\<in>set (avg_step g tab y). isFinite x"
    using Cons.prems(2) by (auto simp: avg_step_def)
  then show ?case using Cons by simp
qed

lemma yoy_change_main_decimal:
  assumes "\<forall>g\<in>set gs. sound_group g"
  shows "is_decimal (yoy_change_main gs y)"
proof -
  have tab: "\<forall>y. \<forall>x\<in>set (avgSavingsByYear_of gs y). isFinite x"
    unfolding avgSavingsByYear_of_def by (rule avg_table_finite [OF assms]) simp
  let ?base = "average_main (if avgSavingsByYear_of gs 2021 = [] then [Num 0] else avgSavingsByYear_of gs 2021)"
  have "isFinite ?base" by (rule average_main_finite) (use tab in auto)
  then obtain b where b: "?base = Num b" by (cases ?base) auto
  have "isFinite (average_main (avgSavingsByYear_of gs y))"
    by (rule average_main_finite) (use tab in auto)
  then obtain a where a: "average_main (avgSavingsByYear_of gs y) = Num a"
    by (cases "average_main (avgSavingsByYear_of gs y)") auto
  show ?thesis
    unfolding yoy_change_main_def Let_def b a by (simp add: js_sub_def)
qed

text \<open>No NaN and no infinity in the reports of the earlier copy.\<close>

lemma main_reports_finite:
  assumes "\<forall>p\<in>set data. finite_project p"
  shows "(\<forall>r\<in>set (generateReport1_main data).
            is_decimal (m_TotalApprovedBudget r) \<and> is_decimal (m_MedianCostSavings r)
            \<and> is_decimal (m_AvgCompletionDelayDays r) \<and> is_decimal (m_DelayOver30Percent r)
            \<and> is_decimal (m_EfficiencyScore r))
     \<and> (\<forall>rows. generateReport2_main data = Inr rows \<longrightarrow>
           (\<forall>r\<in>set rows. is_decimal (m_AvgDelay r) \<and> is_decimal (m_TotalCostSavings r)
              \<and> is_decimal (m_ReliabilityIndex r)))
     \<and> (\<forall>r\<in>set (generateReport3_main data).
           is_decimal (m_AvgCostSavings r) \<and> is_decimal (m_OverrunRate r)
           \<and> is_decimal (m_YoYChangePercent r))"
proof -
  have one: "is_decimal (m_TotalApprovedBudget r) \<and> is_decimal (m_MedianCostSavings r)
            \<and> is_decimal (m_AvgCompletionDelayDays r) \<and> is_decimal (m_DelayOver30Percent r)
            \<and> is_decimal (m_EfficiencyScore r)"
    if "r \<in> set (generateReport1_main data)" for r
  proof -
    from that obtain g where g: "g \<in> set (object_values (regionMap_of data))" "r = region_result_main g"
      by (auto simp: generateReport1_main_def set_js_sort)
    then have "sound_region g"
      using region_groups_sound [OF assms] by (auto simp: set_object_values)
    from region_result_main_decimal [OF this] show ?thesis unfolding g(2) .
  qed
  have two: "is_decimal (m_AvgDelay r) \<and> is_decimal (m_TotalCostSavings r) \<and> is_decimal (m_ReliabilityIndex r)"
    if run: "generateReport2_main data = Inr rows" and r: "r \<in> set rows" for rows r
  proof -
    from run obtain m where m: "contractorLoop data [] = Inr m"
      and rows: "rows = take 15
                (js_sort (\<lambda>a b. js_sub (Number_of_grouped (m_TotalCostSavings b))
                                       (Number_of_grouped (m_TotalCostSavings a)))
                   (map contractor_result_main
                      (filter (\<lambda>c. 5 \<le> projects c) (object_values m))))"
      by (auto simp: generateReport2_main_def split: sum.splits)
    from r have "r \<in> set (js_sort (\<lambda>a b. js_sub (Number_of_grouped (m_TotalCostSavings b))
                                       (Number_of_grouped (m_TotalCostSavings a)))
                   (map contractor_result_main
                      (filter (\<lambda>c. 5 \<le> projects c) (object_values m))))"
      unfolding rows by (rule in_set_takeD)
    then obtain g where g: "g \<in> set (object_values m)" "r = contractor_result_main g"
      by (auto simp: set_js_sort)
    then have "sound_contractor g"
      using contractor_groups_sound [OF m assms] by (auto simp: set_object_values)
    from contractor_result_main_decimal [OF this] show ?thesis unfolding g(2) .
  qed
  have three: "is_decimal (m_AvgCostSavings r) \<and> is_decimal (m_OverrunRate r)
           \<and> is_decimal (m_YoYChangePercent r)"
    if "r \<in> set (generateReport3_main data)" for r
  proof -
    let ?gs = "object_values (typeMap_of data)"
    from that obtain g where g: "g \<in> set ?gs" "r = trend_result_main ?gs g"
      by (auto simp: generateReport3_main_def Let_def set_js_sort)
    have fin: "\<forall>p\<in>set data. isFinite (CostSavings p)" using assms by (simp add: finite_project_def)
    have sound: "\<forall>g\<in>set ?gs. sound_group g"
      using type_groups_sound [OF fin] by (auto simp: set_object_values)
    then have sg: "sound_group g" using g(1) by blast
    have "isFinite (average_main (t_savings g))"
      using sg by (intro average_main_finite) (simp add: sound_group_def)
    then have a: "is_decimal (formatNumber (average_main (t_savings g)))"
      by (rule decimal_format_finite)
    have ne: "length (t_savings g) \<noteq> 0" using sg by (simp add: sound_group_def)
    have b: "is_decimal (formatNumber (js_mul (js_div (Num (real (length (filter (\<lambda>s. js_lt s (Num 0)) (t_savings g)))))
                           (Num (real (length (t_savings g))))) (Num 100)))"
      by (rule decimal_format_finite) (rule ratio_percent_finite [OF ne])
    have fields:
      "m_AvgCostSavings (trend_result_main ?gs g) = formatNumber (average_main (t_savings g))"
      "m_OverrunRate (trend_result_main ?gs g) =
         formatNumber (js_mul (js_div (Num (real (length (filter (\<lambda>s. js_lt s (Num 0)) (t_savings g)))))
                           (Num (real (length (t_savings g))))) (Num 100))"
      "m_YoYChangePercent (trend_result_main ?gs g) = yoy_change_main ?gs (t_FundingYear g)"
      by (simp_all add: trend_result_main_def Let_def del: js_div.simps js_mul.simps)
    show ?thesis unfolding g(2) fields using a b yoy_change_main_decimal [OF sound] by (intro conjI)
  qed
  show ?thesis using one two three by blast
qed

text \<open>The budget totals, the bounds of the ranking and the range of the scores.\<close>

lemma main_budget_totals:
  assumes "\<forall>p\<in>set data. isFinite (ApprovedBudgetForContract p)"
  shows "js_le (Math_abs (js_sub (js_sum (map (\<lambda>r. Number_of (m_TotalApprovedBudget r)) (generateReport1_main data)))
                                  (js_sum (map ApprovedBudgetForContract data))))
               (Num (real (length (generateReport1_main data)) / 200))"
proof -
  let ?m = "regionMap_of data"
  let ?S = "\<lambda>kv::string \<times> RegionGroup. \<Sum>b\<leftarrow>budgets (snd kv). num_val b"
  let ?shown = "\<lambda>r. Number_of (m_TotalApprovedBudget r)"
  let ?rows0 = "map region_result_main (object_values ?m)"
  have rep: "mset (generateReport1_main data) = mset ?rows0"
    unfolding generateReport1_main_def by (rule mset_js_sort)
  have total: "Number_of (m_TotalApprovedBudget (region_result_main g)) = Num (round2 (\<Sum>b\<leftarrow>budgets g. num_val b))"
    if "\<forall>b\<in>set (budgets g). isFinite b" for g
  proof -
    have "m_TotalApprovedBudget (region_result_main g) = formatNumber (js_sum (budgets g))"
      by (simp add: region_result_main_def Let_def)
    then show ?thesis
      by (simp add: js_sum_val [OF that] formatNumber_def Number_toFixed2 del: toFixed2.simps Number_of.simps)
  qed
  have shown: "map ?shown ?rows0 = map (\<lambda>kv. Num (round2 (?S kv))) ?m"
    using region_budgets_finite [OF assms]
    by (simp add: region_values total del: Number_of.simps)
  from rep have "mset (map ?shown (generateReport1_main data)) = mset (map ?shown ?rows0)"
    by (metis mset_map)
  then have perm: "mset (map ?shown (generateReport1_main data)) = mset (map (\<lambda>kv. Num (round2 (?S kv))) ?m)"
    unfolding shown .
  have fin: "\<forall>x\<in>set (map ?shown (generateReport1_main data)). isFinite x"
    using perm by (metis (no_types, lifting) ex_map_conv isFinite.simps(1) mset_eq_setD)
  have len: "length (generateReport1_main data) = length ?m"
    using rep by (metis size_mset length_map length_object_values)
  have "js_sum (map ?shown (generateReport1_main data)) = Num (\<Sum>x\<leftarrow>map ?shown (generateReport1_main data). num_val x)"
    by (rule js_sum_val [OF fin])
  also have "(\<Sum>x\<leftarrow>map ?shown (generateReport1_main data). num_val x)
      = (\<Sum>x\<leftarrow>map (\<lambda>kv. Num (round2 (?S kv))) ?m. num_val x)"
    by (rule sum_val_perm [OF perm])
  also have "\<dots> = (\<Sum>kv\<leftarrow>?m. round2 (?S kv))" by (simp add: comp_def)
  finally have lhs: "js_sum (map ?shown (generateReport1_main data)) = Num (\<Sum>kv\<leftarrow>?m. round2 (?S kv))" .
  have "js_sum (map ApprovedBudgetForContract data) = Num (\<Sum>x\<leftarrow>map ApprovedBudgetForContract data. num_val x)"
    by (rule js_sum_val) (use assms in auto)
  also have "(\<Sum>x\<leftarrow>map ApprovedBudgetForContract data. num_val x) = (\<Sum>kv\<leftarrow>?m. ?S kv)"
    by (simp add: region_budgets_total comp_def)
  finally have rhs: "js_sum (map ApprovedBudgetForContract data) = Num (\<Sum>kv\<leftarrow>?m. ?S kv)" .
  show ?thesis
    using round2_sum_close [of ?S ?m]
    by (simp add: lhs rhs len js_sub_def js_le_def)
qed

lemma report2_main_counts:
  assumes "generateReport2_main data = Inr rows"
  shows "(\<forall>r\<in>set rows. 5 \<le> m_Projects r
            \<and> m_Projects r = length (filter (\<lambda>p. Contractor p = m_Contractor r) data))
     \<and> length rows \<le> 15"
proof -
  from assms obtain m where m: "contractorLoop data [] = Inr m"
    and rows: "rows = take 15
                (js_sort (\<lambda>a b. js_sub (Number_of_grouped (m_TotalCostSavings b))
                                       (Number_of_grouped (m_TotalCostSavings a)))
                   (map contractor_result_main
                      (filter (\<lambda>c. 5 \<le> projects c) (object_values m))))"
    by (auto simp: generateReport2_main_def split: sum.splits)
  have "5 \<le> m_Projects r \<and> m_Projects r = length (filter (\<lambda>p. Contractor p = m_Contractor r) data)"
    if "r \<in> set rows" for r
  proof -
    from that have "r \<in> set (js_sort (\<lambda>a b. js_sub (Number_of_grouped (m_TotalCostSavings b))
                                       (Number_of_grouped (m_TotalCostSavings a)))
                   (map contractor_result_main
                      (filter (\<lambda>c. 5 \<le> projects c) (object_values m))))"
      unfolding rows by (rule in_set_takeD)
    then obtain g where g: "g \<in> set (object_values m)" "5 \<le> projects g" "r = contractor_result_main g"
      by (auto simp: set_js_sort)
    show ?thesis
      using contractor_counts [OF m g(1)] g(2)
      by (simp add: g(3) contractor_result_main_def Let_def)
  qed
  moreover have "length rows \<le> 15" by (simp add: rows)
  ultimately show ?thesis by blast
qed



section \<open>Cost-trend report: both copies\<close>












section \<open>Regional efficiency report: both copies\<close>





section \<open>Contractor reliability report: the ranking of the earlier copy\<close>

text \<open>
  Claim C4 holds of the revised copy, which ranks the contractors on their total
  contract cost. The earlier copy \<^verbatim>\<open>main.js\<close> announces its report as the top fifteen by
  total cost, and ranks on the text of the total savings instead: of two contractors
  with five projects each, ACME with a total cost of 500 and total savings of 500 comes
  before Bato with a total cost of 5000 and total savings of 50. The revised copy lists
  Bato first.
\<close>

theorem contractor_ranking_main_by_savings:
  "generateReport2_main ranking_data2 =
     Inr [\<lparr> m_Contractor = ''ACME'', m_Projects = 5, m_AvgDelay = Dec False 1000,
             m_TotalCostSavings = Dec False 50000, m_ReliabilityIndex = Dec False 8889,
             m_RiskFlag = ''OK'' \<rparr>,
          \<lparr> m_Contractor = ''Bato'', m_Projects = 5, m_AvgDelay = Dec False 2000,
             m_TotalCostSavings = Dec False 5000, m_ReliabilityIndex = Dec False 78,
             m_RiskFlag = ''High Risk'' \<rparr>]
   \<and> js_sum (map ContractCost (filter (\<lambda>p. Contractor p = ''ACME'') ranking_data2)) = Num 500
   \<and> js_sum (map ContractCost (filter (\<lambda>p. Contractor p = ''Bato'') ranking_data2)) = Num 5000
   \<and> map_sum id (map (\<lambda>r. (c_Contractor r, TotalCost r))) (generateReport2 ranking_data2) =
       Inr [(''Bato'', Dec False 500000), (''ACME'', Dec False 50000)]"
proof -
  have one: "generateReport2_main ranking_data2 =
     Inr [\<lparr> m_Contractor = ''ACME'', m_Projects = 5, m_AvgDelay = Dec False 1000,
             m_TotalCostSavings = Dec False 50000, m_ReliabilityIndex = Dec False 8889,
             m_RiskFlag = ''OK'' \<rparr>,
          \<lparr> m_Contractor = ''Bato'', m_Projects = 5, m_AvgDelay = Dec False 2000,
             m_TotalCostSavings = Dec False 5000, m_ReliabilityIndex = Dec False 78,
             m_RiskFlag = ''High Risk'' \<rparr>]"
    by (simp add: report2_main_defs)
  have two: "js_sum (map ContractCost (filter (\<lambda>p. Contractor p = ''ACME'') ranking_data2)) = Num 500
     \<and> js_sum (map ContractCost (filter (\<lambda>p. Contractor p = ''Bato'') ranking_data2)) = Num 5000"
    by (simp add: ranking_data2_def sample_project_def replicate_num js_sum_def)
  have three: "map_sum id (map (\<lambda>r. (c_Contractor r, TotalCost r))) (generateReport2 ranking_data2) =
       Inr [(''Bato'', Dec False 500000), (''ACME'', Dec False 50000)]"
    by (simp add: report2_defs ranking_data2_def)
  show ?thesis using one two three by simp
qed

section \<open>No NaN and no infinity in the reports: both copies\<close>

lemma efficiency_zero_delay_main:
  "average_main (delays g) = Num 0 \<Longrightarrow> m_EfficiencyScore (region_result_main g) = Dec False 0"
  by (cases "median (savings g)")
     (simp_all add: region_result_main_def Let_def inf_of_sign_def Math_min_def Math_max_def
                    formatNumber_def hundredths_def)

lemma reliability_zero_cost_main:
  assumes "totalCost c = Num 0"
  shows "m_ReliabilityIndex (contractor_result_main c) = Dec False 0"
proof -
  let ?a = "js_sub (Num 1) (js_div (average_main (c_delays c)) (Num 90))"
  let ?q = "js_div (totalSavings c) (Num 0)"
  have q: "\<not> isFinite ?q" by (cases "totalSavings c") (simp_all add: inf_of_sign_def)
  have "\<not> isFinite (js_mul ?a ?q)" using q by (cases ?a; cases ?q) (simp_all add: inf_of_sign_def)
  then have "\<not> isFinite (js_mul (js_mul ?a ?q) (Num 100))"
    by (cases "js_mul ?a ?q") (simp_all add: inf_of_sign_def)
  then show ?thesis
    by (simp add: contractor_result_main_def Let_def assms Math_min_def Math_max_def
                  formatNumber_def hundredths_def)
qed

text \<open>The projects that the cleaner returns from amounts that parse to finite numbers.\<close>

lemma cleaner_finite:
  assumes "cleanLoop lib rows acc = Inr ps"
    and "\<forall>r\<in>set rows. parseFloatSafe lib (raw_ApprovedBudgetForContract r) \<noteq> PosInf
                      \<and> parseFloatSafe lib (raw_ContractCost r) \<noteq> PosInf"
    and "\<forall>p\<in>set acc. finite_project p"
  shows "\<forall>p\<in>set ps. finite_project p"
  using assms
proof (induction rows arbitrary: acc)
  case Nil
  then show ?case by simp
next
  case (Cons r rows)
  show ?case
  proof (cases "cleanRow lib r")
    case (Inl e)
    then show ?thesis using Cons.prems(1) by simp
  next
    case (Inr v)
    show ?thesis
    proof (cases v)
      case None
      then have "cleanLoop lib rows acc = Inr ps" using Cons.prems(1) Inr by simp
      then show ?thesis using Cons.IH [of acc] Cons.prems(2,3) by simp
    next
      case (Some p)
      then have run: "cleanLoop lib rows (acc @ [p]) = Inr ps" using Cons.prems(1) Inr by simp
      have "finite_project p"
        using cleanRow_finite [of lib r p] Inr Some Cons.prems(2) by simp
      then have "\<forall>p\<in>set (acc @ [p]). finite_project p" using Cons.prems(3) by simp
      from Cons.IH [OF run _ this] show ?thesis using Cons.prems(2) by simp
    qed
  qed
qed

lemma cleaned_projects_finite:
  assumes "cleanAndPrepareData lib rows = Inr ps"
    and "\<forall>r\<in>set rows. parseFloatSafe lib (raw_ApprovedBudgetForContract r) \<noteq> PosInf
                      \<and> parseFloatSafe lib (raw_ContractCost r) \<noteq> PosInf"
  shows "\<forall>p\<in>set ps. finite_project p"
  using cleaner_finite [of lib rows "[]" ps] assms by (simp add: cleanAndPrepareData_def)

lemmas infinite_defs =
  infinite_budget_row_def infinite_budget_project_def

text \<open>
  Claim C7, as stated, fails on a cleaned project whose budget is infinite. The cleaner
  accepts a row whose budget cell reads \<^verbatim>\<open>Infinity\<close> (an infinity is not at most 0), and
  the regional report of either copy then shows an infinite total budget and an
  infinite median of the savings; the cost-trend report shows infinite average savings.
\<close>

theorem infinite_budget_reaches_reports_counterexample:
  "cleanAndPrepareData sample_lib [infinite_budget_row] = Inr [infinite_budget_project]
   \<and> map TotalApprovedBudget (generateReport1 [infinite_budget_project]) = [InfStr False]
   \<and> map MedianCostSavings (generateReport1 [infinite_budget_project]) = [InfStr False]
   \<and> map m_TotalApprovedBudget (generateReport1_main [infinite_budget_project]) = [InfStr False]
   \<and> map m_MedianCostSavings (generateReport1_main [infinite_budget_project]) = [InfStr False]
   \<and> map AvgCostSavings (generateReport3 [infinite_budget_project]) = [InfStr False]
   \<and> map m_AvgCostSavings (generateReport3_main [infinite_budget_project]) = [InfStr False]"
proof -
  have one: "cleanAndPrepareData sample_lib [infinite_budget_row] = Inr [infinite_budget_project]"
    by (simp add: infinite_defs sample_defs)
  have two: "map TotalApprovedBudget (generateReport1 [infinite_budget_project]) = [InfStr False]
     \<and> map MedianCostSavings (generateReport1 [infinite_budget_project]) = [InfStr False]"
    by (simp add: report1_defs infinite_defs sample_row_def inf_of_sign_def)
  have three: "map m_TotalApprovedBudget (generateReport1_main [infinite_budget_project]) = [InfStr False]
     \<and> map m_MedianCostSavings (generateReport1_main [infinite_budget_project]) = [InfStr False]"
    by (simp add: report1_main_defs infinite_defs sample_row_def inf_of_sign_def)
  have four: "map AvgCostSavings (generateReport3 [infinite_budget_project]) = [InfStr False]"
    by (simp add: report3_defs infinite_defs sample_row_def)
  have five: "map m_AvgCostSavings (generateReport3_main [infinite_budget_project]) = [InfStr False]"
    by (simp add: report3_main_defs infinite_defs sample_row_def)
  show ?thesis using one two three four five by simp
qed

text \<open>
  Claim C7, amended. For every set of cleaned projects whose budgets, contract costs
  and savings are finite numbers and whose delays are finite or NaN (what the cleaner
  returns when no amount cell parses to an infinity), and in exact arithmetic, that is
  short of an overflow of the floating-point range: in both copies no number shown in a
  row of the regional, contractor or trend report is NaN or an infinity. The degenerate
  divisions come out as 0: the efficiency of a group whose average delay is zero, the
  reliability index of a contractor whose total cost is zero, and the normalization of
  the revised copy when the lowest and the highest score are equal.
\<close>

theorem reports_finite_in_both_copies:
  assumes "\<forall>p\<in>set data. finite_project p"
  shows "(\<forall>r\<in>set (generateReport1 data).
            is_decimal (TotalApprovedBudget r) \<and> is_decimal (MedianCostSavings r)
            \<and> is_decimal (AvgCompletionDelayDays r) \<and> is_decimal (DelayOver30Percent r)
            \<and> isFinite (EfficiencyScore r))
     \<and> (\<forall>rows. generateReport2 data = Inr rows \<longrightarrow>
           (\<forall>r\<in>set rows. is_decimal (TotalCost r) \<and> is_decimal (AvgDelay r)
              \<and> is_decimal (TotalSavings r) \<and> is_decimal (ReliabilityIndex r)))
     \<and> (\<forall>r\<in>set (generateReport3 data).
           is_decimal (AvgCostSavings r) \<and> is_decimal (OverrunRate r) \<and> is_decimal (YoYChange r))
     \<and> (\<forall>r\<in>set (generateReport1_main data).
            is_decimal (m_TotalApprovedBudget r) \<and> is_decimal (m_MedianCostSavings r)
            \<and> is_decimal (m_AvgCompletionDelayDays r) \<and> is_decimal (m_DelayOver30Percent r)
            \<and> is_decimal (m_EfficiencyScore r))
     \<and> (\<forall>rows. generateReport2_main data = Inr rows \<longrightarrow>
           (\<forall>r\<in>set rows. is_decimal (m_AvgDelay r) \<and> is_decimal (m_TotalCostSavings r)
              \<and> is_decimal (m_ReliabilityIndex r)))
     \<and> (\<forall>r\<in>set (generateReport3_main data).
           is_decimal (m_AvgCostSavings r) \<and> is_decimal (m_OverrunRate r)
           \<and> is_decimal (m_YoYChangePercent r))
     \<and> (\<forall>g. average (delays g) = Num 0 \<longrightarrow> EfficiencyScore (region_result g) = Num 0)
     \<and> (\<forall>c. totalCost c = Num 0 \<longrightarrow> ReliabilityIndex (contractor_result c) = Dec False 0)
     \<and> (\<forall>m e. normalize_score (Num m) (Num m) e = Num 0)
     \<and> (\<forall>g. average_main (delays g) = Num 0 \<longrightarrow> m_EfficiencyScore (region_result_main g) = Dec False 0)
     \<and> (\<forall>c. totalCost c = Num 0 \<longrightarrow> m_ReliabilityIndex (contractor_result_main c) = Dec False 0)"
proof -
  have deg: "(\<forall>m e. normalize_score (Num m) (Num m) e = Num 0)
     \<and> (\<forall>g. average_main (delays g) = Num 0 \<longrightarrow> m_EfficiencyScore (region_result_main g) = Dec False 0)
     \<and> (\<forall>c. totalCost c = Num 0 \<longrightarrow> m_ReliabilityIndex (contractor_result_main c) = Dec False 0)"
    using normalize_equal efficiency_zero_delay_main reliability_zero_cost_main by blast
  from reports_are_finite [OF assms] main_reports_finite [OF assms] deg
  show ?thesis by (intro conjI) blast+
qed

theorem reports_finite_in_both_copies_witness:
  "list_all (\<lambda>r. is_decimal (TotalApprovedBudget r) \<and> is_decimal (MedianCostSavings r)
            \<and> is_decimal (AvgCompletionDelayDays r) \<and> is_decimal (DelayOver30Percent r)
            \<and> isFinite (EfficiencyScore r)) (generateReport1 (drop 9 ranking_data))
   \<and> map AvgCompletionDelayDays (generateReport1 (drop 9 ranking_data)) = [Dec False 0]
   \<and> map EfficiencyScore (generateReport1 (drop 9 ranking_data)) = [Num 0]
   \<and> (\<exists>rows. generateReport2 ranking_data = Inr rows
         \<and> list_all (\<lambda>r. is_decimal (TotalCost r) \<and> is_decimal (AvgDelay r)
              \<and> is_decimal (TotalSavings r) \<and> is_decimal (ReliabilityIndex r)) rows)
   \<and> list_all (\<lambda>r. is_decimal (AvgCostSavings r) \<and> is_decimal (OverrunRate r)
          \<and> is_decimal (YoYChange r)) (generateReport3 ranking_data)
   \<and> list_all (\<lambda>r. is_decimal (m_TotalApprovedBudget r) \<and> is_decimal (m_MedianCostSavings r)
            \<and> is_decimal (m_AvgCompletionDelayDays r) \<and> is_decimal (m_DelayOver30Percent r)
            \<and> is_decimal (m_EfficiencyScore r)) (generateReport1_main (drop 9 ranking_data))
   \<and> (\<exists>rows. generateReport2_main ranking_data = Inr rows
         \<and> list_all (\<lambda>r. is_decimal (m_AvgDelay r) \<and> is_decimal (m_TotalCostSavings r)
              \<and> is_decimal (m_ReliabilityIndex r)) rows)
   \<and> list_all (\<lambda>r. is_decimal (m_AvgCostSavings r) \<and> is_decimal (m_OverrunRate r)
          \<and> is_decimal (m_YoYChangePercent r)) (generateReport3_main ranking_data)"
proof -
  have fin: "\<forall>p\<in>set ranking_data. finite_project p"
    by (simp add: ranking_data_def sample_project_def finite_project_def)
  then have fin9: "\<forall>p\<in>set (drop 9 ranking_data). finite_project p"
    by (meson in_set_dropD)
  have avg: "map AvgCompletionDelayDays (generateReport1 (drop 9 ranking_data)) = [Dec False 0]"
    by (simp add: report1_defs replicate_num ranking_data_def)
  have eff: "map EfficiencyScore (generateReport1 (drop 9 ranking_data)) = [Num 0]"
    by (simp add: report1_defs replicate_num ranking_data_def inf_of_sign_def)
  have "\<forall>p\<in>set ranking_data. Contractor p \<notin> set object_prototype_keys"
    by (simp add: ranking_data_def sample_project_def object_prototype_keys_def)
  from contractorLoop_returns [OF this] obtain m where m: "contractorLoop ranking_data [] = Inr m"
    by blast
  then have rows: "generateReport2 ranking_data = Inr (map ContractorRow.truncate (contractor_ranking m))"
    by (simp add: generateReport2_def)
  from m obtain rows_main where rows_main: "generateReport2_main ranking_data = Inr rows_main"
    by (simp add: generateReport2_main_def)
  note all9 = reports_finite_in_both_copies [OF fin9]
  note all = reports_finite_in_both_copies [OF fin]
  from all9
  have one: "\<forall>r\<in>set (generateReport1 (drop 9 ranking_data)).
            is_decimal (TotalApprovedBudget r) \<and> is_decimal (MedianCostSavings r)
            \<and> is_decimal (AvgCompletionDelayDays r) \<and> is_decimal (DelayOver30Percent r)
            \<and> isFinite (EfficiencyScore r)"
    by (rule conjunct1)
  from all rows
  have two: "\<forall>r\<in>set (map ContractorRow.truncate (contractor_ranking m)).
            is_decimal (TotalCost r) \<and> is_decimal (AvgDelay r)
            \<and> is_decimal (TotalSavings r) \<and> is_decimal (ReliabilityIndex r)"
    by blast
  from all
  have three: "\<forall>r\<in>set (generateReport3 ranking_data).
           is_decimal (AvgCostSavings r) \<and> is_decimal (OverrunRate r) \<and> is_decimal (YoYChange r)"
    by blast
  from all9
  have four: "\<forall>r\<in>set (generateReport1_main (drop 9 ranking_data)).
            is_decimal (m_TotalApprovedBudget r) \<and> is_decimal (m_MedianCostSavings r)
            \<and> is_decimal (m_AvgCompletionDelayDays r) \<and> is_decimal (m_DelayOver30Percent r)
            \<and> is_decimal (m_EfficiencyScore r)"
    by blast
  from all rows_main
  have five: "\<forall>r\<in>set rows_main. is_decimal (m_AvgDelay r) \<and> is_decimal (m_TotalCostSavings r)
              \<and> is_decimal (m_ReliabilityIndex r)"
    by blast
  from all
  have six: "\<forall>r\<in>set (generateReport3_main ranking_data).
           is_decimal (m_AvgCostSavings r) \<and> is_decimal (m_OverrunRate r)
           \<and> is_decimal (m_YoYChangePercent r)"
    by blast
  have ex2: "\<exists>rows. generateReport2 ranking_data = Inr rows
         \<and> (\<forall>r\<in>set rows. is_decimal (TotalCost r) \<and> is_decimal (AvgDelay r)
              \<and> is_decimal (TotalSavings r) \<and> is_decimal (ReliabilityIndex r))"
    using rows two by blast
  have ex5: "\<exists>rows. generateReport2_main ranking_data = Inr rows
         \<and> (\<forall>r\<in>set rows. is_decimal (m_AvgDelay r) \<and> is_decimal (m_TotalCostSavings r)
              \<and> is_decimal (m_ReliabilityIndex r))"
    using rows_main five by blast
  show ?thesis
    unfolding list_all_iff
    using one avg eff ex2 three four ex5 six by (intro conjI)
qed

end
